theory Spec2Isabelle
  imports Main
begin

section \<open>Values exchanged with the chain endpoints\<close>

text \<open>
  The relay scripts (\<^verbatim>\<open>scripts/interop-test.ts\<close> and its JavaScript predecessor) talk to
  two chain endpoints through awaited calls. An awaited call either rejects (the
  \<^verbatim>\<open>catch\<close> branch, or an exception that ends \<^verbatim>\<open>main\<close>) or resolves to a value.
  Strings are the hexadecimal texts the RPC layer hands out (ASCII).
\<close>

datatype 'a fetch = Throws string | Returns 'a

datatype error = Error string

record block =
  number :: int

record log_proof =
  batch_number :: int
  id_lp :: int
  root_lp :: string
  proof_lp :: "string list"

record l2_to_l1_log =
  sender :: string
  data_l2 :: string

record log =
  address_log :: string
  topics :: "string list"
  data_log :: string

text \<open>The decoded bundle tuple is only handed on to the ABI coder; it is kept opaque.\<close>

type_synonym interop_bundle = string

record log_description =
  name :: string
  interopBundle :: interop_bundle

record receipt =
  hash :: string
  blockNumber :: int
  index_tx :: int
  from_tx :: string
  logs :: "log list option"
  l2ToL1Logs :: "l2_to_l1_log list option"

record message =
  txNumberInBatch :: int
  sender_msg :: string
  data_msg :: string

record message_proof =
  chainId_mp :: int
  l1BatchNumber :: int
  l2MessageIndex :: int
  message_mp :: message
  proof_mp :: "string list"

text \<open>
  The endpoints are outside the program. Each polled operation is an oracle that tells
  what the \<open>k\<close>-th call of it answers, and how many milliseconds pass until it answers
  (the fields ending in \<open>_ms\<close>); the other operations answer the same at every call.
\<close>

record env =
  getBlock :: "nat \<Rightarrow> block option fetch"
  getLogProof :: "string \<Rightarrow> int \<Rightarrow> nat \<Rightarrow> log_proof option fetch"
  pollingInterval :: nat
  interopRoots :: "int \<Rightarrow> int \<Rightarrow> nat \<Rightarrow> string fetch"
  getNetwork :: "int fetch"
  sendMessage :: "receipt option fetch"
  parseLog :: "log \<Rightarrow> log_description option fetch"
  abiEncode :: "interop_bundle \<Rightarrow> string fetch"
  executeBundle :: "string \<Rightarrow> message_proof \<Rightarrow> unit fetch"
  sendToL1 :: "receipt option fetch"
  proveL2MessageInclusionShared :: "message_proof \<Rightarrow> bool fetch"
  getBlock_ms :: "nat \<Rightarrow> nat"
  getLogProof_ms :: "string \<Rightarrow> int \<Rightarrow> nat \<Rightarrow> nat"
  interopRoots_ms :: "int \<Rightarrow> int \<Rightarrow> nat \<Rightarrow> nat"

datatype event =
    EvGetBlock
  | EvGetLogProof string int
  | EvInteropRoots int int
  | EvSleep nat
  | EvGetNetwork
  | EvSendMessage
  | EvExecuteBundle string message_proof
  | EvSendToL1
  | EvProveInclusion message_proof

text \<open>
  The observable state of a run: how often each polled operation has been called, the
  total time the run has asked its timers to sleep (\<open>clock\<close>, milliseconds), every call in
  order, and the time that has passed while polling (\<open>elapsed\<close>, milliseconds): the sleeps
  and the time each polled read took to answer. The loops of the scripts count retries and
  never look at a clock, so the time of a read is added on top of the sleeps.
\<close>

record world =
  blockCalls :: nat
  proofCalls :: nat
  rootCalls :: nat
  clock :: nat
  elapsed :: nat
  trace :: "event list"

definition world0 :: world where
  "world0 = \<lparr>blockCalls = 0, proofCalls = 0, rootCalls = 0, clock = 0, elapsed = 0,
             trace = []\<rparr>"

definition emit :: "event \<Rightarrow> world \<Rightarrow> world" where
  "emit ev w = w\<lparr>trace := trace w @ [ev]\<rparr>"

definition sleep :: "nat \<Rightarrow> world \<Rightarrow> world" where
  "sleep ms w = emit (EvSleep ms) (w\<lparr>clock := clock w + ms, elapsed := elapsed w + ms\<rparr>)"

definition call_getBlock :: "env \<Rightarrow> world \<Rightarrow> block option fetch \<times> world" where
  "call_getBlock e w =
     (getBlock e (blockCalls w),
      emit EvGetBlock (w\<lparr>blockCalls := Suc (blockCalls w),
                         elapsed := elapsed w + getBlock_ms e (blockCalls w)\<rparr>))"

definition call_getLogProof ::
  "env \<Rightarrow> string \<Rightarrow> int \<Rightarrow> world \<Rightarrow> log_proof option fetch \<times> world" where
  "call_getLogProof e txHash i w =
     (getLogProof e txHash i (proofCalls w),
      emit (EvGetLogProof txHash i)
        (w\<lparr>proofCalls := Suc (proofCalls w),
           elapsed := elapsed w + getLogProof_ms e txHash i (proofCalls w)\<rparr>))"

definition call_interopRoots :: "env \<Rightarrow> int \<Rightarrow> int \<Rightarrow> world \<Rightarrow> string fetch \<times> world" where
  "call_interopRoots e chainId batchNumber w =
     (interopRoots e chainId batchNumber (rootCalls w),
      emit (EvInteropRoots chainId batchNumber)
        (w\<lparr>rootCalls := Suc (rootCalls w),
           elapsed := elapsed w + interopRoots_ms e chainId batchNumber (rootCalls w)\<rparr>))"

section \<open>The polling waiters\<close>

definition POLL_INTERVAL :: nat where
  "POLL_INTERVAL = 100"

definition DEFAULT_TIMEOUT :: nat where
  "DEFAULT_TIMEOUT = 60000"

definition ZeroAddress :: string where
  "ZeroAddress = ''0x0000000000000000000000000000000000000000''"

definition ZeroRoot :: string where
  "ZeroRoot = ''0x'' @ concat (replicate 32 ''00'')"

definition lower_char :: "char \<Rightarrow> char" where
  "lower_char c =
     (let n = (of_char c :: nat) in if 65 \<le> n \<and> n \<le> 90 then char_of (n + 32) else c)"

definition toLowerCase :: "string \<Rightarrow> string" where
  "toLowerCase s = map lower_char s"

text \<open>
  \<^verbatim>\<open>root && root !== ethers.ZeroAddress && root !== `0x${"00".repeat(32)}`\<close>,
  where \<open>root\<close> is \<open>null\<close> after a rejected read.
\<close>

definition root_present :: "string option \<Rightarrow> bool" where
  "root_present root =
     (case root of None \<Rightarrow> False
      | Some s \<Rightarrow> s \<noteq> [] \<and> s \<noteq> ZeroAddress \<and> s \<noteq> ZeroRoot)"

definition root_of :: "string fetch \<Rightarrow> string option" where
  "root_of r = (case r of Throws m \<Rightarrow> None | Returns s \<Rightarrow> Some s)"

definition mismatch_message :: "string \<Rightarrow> string \<Rightarrow> string" where
  "mismatch_message expectedRoot root =
     ''Interop root mismatch: expected '' @ expectedRoot @ '', got '' @ root"

fun root_loop ::
  "env \<Rightarrow> int \<Rightarrow> int \<Rightarrow> string \<Rightarrow> nat \<Rightarrow> world \<Rightarrow> (error + unit) \<times> world" where
  "root_loop e chainId batchNumber expectedRoot 0 w =
     (Inl (Error ''Interop root did not become available in time''), w)"
| "root_loop e chainId batchNumber expectedRoot (Suc retries) w =
     (let (r, w1) = call_interopRoots e chainId batchNumber w;
          root = root_of r
      in if root_present root
         then (if toLowerCase (the root) = toLowerCase expectedRoot
               then (Inr (), w1)
               else (Inl (Error (mismatch_message expectedRoot (the root))), w1))
         else root_loop e chainId batchNumber expectedRoot retries (sleep POLL_INTERVAL w1))"

definition waitUntilRootBecomesAvailable ::
  "env \<Rightarrow> int \<Rightarrow> int \<Rightarrow> string \<Rightarrow> world \<Rightarrow> (error + unit) \<times> world" where
  "waitUntilRootBecomesAvailable e chainId batchNumber expectedRoot w =
     root_loop e chainId batchNumber expectedRoot (DEFAULT_TIMEOUT div POLL_INTERVAL) w"

text \<open>
  \<^verbatim>\<open>executedBlock = block?.number ?? 0\<close>, and \<open>0\<close> after a rejected read.
\<close>

definition executedBlock :: "block option fetch \<Rightarrow> int" where
  "executedBlock r =
     (case r of Throws m \<Rightarrow> 0 | Returns None \<Rightarrow> 0 | Returns (Some b) \<Rightarrow> number b)"

fun finalized_loop :: "env \<Rightarrow> int \<Rightarrow> nat \<Rightarrow> world \<Rightarrow> (error + unit) \<times> world" where
  "finalized_loop e blockNum 0 w = (Inl (Error ''Block was not finalized in time''), w)"
| "finalized_loop e blockNum (Suc retries) w =
     (let (r, w1) = call_getBlock e w
      in if executedBlock r \<ge> blockNum
         then (Inr (), w1)
         else finalized_loop e blockNum retries (sleep POLL_INTERVAL w1))"

definition waitUntilBlockFinalized :: "env \<Rightarrow> int \<Rightarrow> world \<Rightarrow> (error + unit) \<times> world" where
  "waitUntilBlockFinalized e blockNum w =
     finalized_loop e blockNum (DEFAULT_TIMEOUT div POLL_INTERVAL) w"

section \<open>Waiting for the log proof\<close>

text \<open>
  A step of \<^verbatim>\<open>main\<close> either does not return (\<open>None\<close>), or ends in an error or a
  value, together with the state it leaves.
\<close>

type_synonym 'a io = "world \<Rightarrow> ((error + 'a) \<times> world) option"

definition return_io :: "'a \<Rightarrow> 'a io" where
  "return_io x w = Some (Inr x, w)"

definition throw_io :: "string \<Rightarrow> 'a io" where
  "throw_io m w = Some (Inl (Error m), w)"

definition bind_io :: "'a io \<Rightarrow> ('a \<Rightarrow> 'b io) \<Rightarrow> 'b io" where
  "bind_io m f w =
     (case m w of None \<Rightarrow> None
      | Some (Inl err, w1) \<Rightarrow> Some (Inl err, w1)
      | Some (Inr x, w1) \<Rightarrow> f x w1)"

definition total_io :: "(world \<Rightarrow> (error + 'a) \<times> world) \<Rightarrow> 'a io" where
  "total_io f w = Some (f w)"

text \<open>An awaited call outside \<^verbatim>\<open>try\<close>: a rejection ends the flow with that error.\<close>

definition await :: "(world \<Rightarrow> 'a fetch \<times> world) \<Rightarrow> 'a io" where
  "await c w =
     (case c w of (Throws m, w1) \<Rightarrow> Some (Inl (Error m), w1)
      | (Returns x, w1) \<Rightarrow> Some (Inr x, w1))"

text \<open>
  \<^verbatim>\<open>while ((await provider.getLogProof(txHash, 0)) == null) { await utils.sleep(provider.pollingInterval); }\<close>
  The loop has no retry counter.
\<close>

partial_function (option) proof_loop ::
  "env \<Rightarrow> string \<Rightarrow> world \<Rightarrow> ((error + unit) \<times> world) option" where
  "proof_loop e txHash w =
     (let rw = call_getLogProof e txHash 0 w
      in if fst rw = Returns None
         then proof_loop e txHash (sleep (pollingInterval e) (snd rw))
         else (case fst rw of Throws m \<Rightarrow> Some (Inl (Error m), snd rw)
               | Returns p \<Rightarrow> Some (Inr (), snd rw)))"

declare proof_loop.simps [code]

definition waitForL2ToL1LogProof :: "env \<Rightarrow> int \<Rightarrow> string \<Rightarrow> unit io" where
  "waitForL2ToL1LogProof e blockNum txHash =
     bind_io (total_io (waitUntilBlockFinalized e blockNum)) (\<lambda>u. proof_loop e txHash)"

section \<open>The relay flow\<close>

text \<open>\<^verbatim>\<open>try { return interopIface.parseLog(log); } catch { return null; }\<close>\<close>

definition tryParseLog :: "env \<Rightarrow> log \<Rightarrow> log_description option" where
  "tryParseLog e l = (case parseLog e l of Throws m \<Rightarrow> None | Returns p \<Rightarrow> p)"

text \<open>\<^verbatim>\<open>parsed?.name === "InteropBundleSent"\<close>\<close>

definition isBundleSent :: "log_description option \<Rightarrow> bool" where
  "isBundleSent parsed =
     (case parsed of None \<Rightarrow> False | Some d \<Rightarrow> name d = ''InteropBundleSent'')"

text \<open>
  \<^verbatim>\<open>(sendReceipt.logs ?? []).map(...).find(...)\<close>; \<open>find\<close> answers \<open>undefined\<close> when
  no element passes, and an element that passes is never \<open>null\<close>.
\<close>

definition bundleEvent :: "env \<Rightarrow> receipt \<Rightarrow> log_description option" where
  "bundleEvent e r =
     (case List.find isBundleSent
             (map (tryParseLog e) (case logs r of None \<Rightarrow> [] | Some ls \<Rightarrow> ls)) of
        None \<Rightarrow> None
      | Some parsed \<Rightarrow> parsed)"

text \<open>
  \<^verbatim>\<open>xs?.[i]\<close>: \<open>undefined\<close> when the array is missing or has no element at \<open>i\<close>
  (a negative or too large index).
\<close>

definition opt_index :: "'a list option \<Rightarrow> int \<Rightarrow> 'a option" where
  "opt_index xs i =
     (case xs of None \<Rightarrow> None
      | Some ys \<Rightarrow> if 0 \<le> i \<and> i < int (length ys) then Some (ys ! nat i) else None)"

text \<open>\<^verbatim>\<open>a ?? b\<close>\<close>

definition nullish :: "'a option \<Rightarrow> 'a option \<Rightarrow> 'a option" where
  "nullish a b = (case a of None \<Rightarrow> b | Some x \<Rightarrow> Some x)"

text \<open>
  \<^verbatim>\<open>sendReceipt.l2ToL1Logs?.[logIndex] ?? sendReceipt.l2ToL1Logs?.[0]\<close>, then the
  check \<^verbatim>\<open>if (!l2ToL1Log) throw\<close>.
\<close>

definition l2ToL1Log :: "receipt \<Rightarrow> int \<Rightarrow> l2_to_l1_log option" where
  "l2ToL1Log r logIndex = nullish (opt_index (l2ToL1Logs r) logIndex) (opt_index (l2ToL1Logs r) 0)"

definition select_l2ToL1Log :: "receipt \<Rightarrow> int \<Rightarrow> l2_to_l1_log io" where
  "select_l2ToL1Log r logIndex =
     (case l2ToL1Log r logIndex of
        None \<Rightarrow> throw_io ''Missing L2->L1 log in receipt; adjust log index selection.''
      | Some l \<Rightarrow> return_io l)"

definition call_getNetwork :: "env \<Rightarrow> world \<Rightarrow> int fetch \<times> world" where
  "call_getNetwork e w = (getNetwork e, emit EvGetNetwork w)"

definition call_sendMessage :: "env \<Rightarrow> world \<Rightarrow> receipt option fetch \<times> world" where
  "call_sendMessage e w = (sendMessage e, emit EvSendMessage w)"

definition call_executeBundle ::
  "env \<Rightarrow> string \<Rightarrow> message_proof \<Rightarrow> world \<Rightarrow> unit fetch \<times> world" where
  "call_executeBundle e bundleBytes p w =
     (executeBundle e bundleBytes p, emit (EvExecuteBundle bundleBytes p) w)"

text \<open>
  \<^verbatim>\<open>main\<close> of \<^verbatim>\<open>scripts/interop-test.ts\<close>, from the point where the
  \<open>sendMessage\<close> transaction has been submitted and awaited. What comes before
  (environment variables, artifact loading, deployment of the greeter) only prepares the
  arguments of that call.
\<close>

definition after_proof :: "env \<Rightarrow> receipt \<Rightarrow> string \<Rightarrow> unit io" where
  "after_proof e sendReceipt bundleBytes =
     bind_io (await (call_getLogProof e (hash sendReceipt) 0)) (\<lambda>logProof.
     case logProof of
       None \<Rightarrow> throw_io ''Missing log proof for sendMessage transaction''
     | Some lp \<Rightarrow>
         bind_io (select_l2ToL1Log sendReceipt (id_lp lp)) (\<lambda>l.
         bind_io (await (call_getNetwork e)) (\<lambda>chainIdA.
         let prf = \<lparr>chainId_mp = chainIdA, l1BatchNumber = batch_number lp,
                    l2MessageIndex = id_lp lp,
                    message_mp = \<lparr>txNumberInBatch = index_tx sendReceipt,
                                  sender_msg = sender l, data_msg = data_l2 l\<rparr>,
                    proof_mp = proof_lp lp\<rparr>
         in bind_io (await (call_getNetwork e)) (\<lambda>chainIdA2.
            bind_io (total_io (waitUntilRootBecomesAvailable e chainIdA2 (batch_number lp)
                                 (root_lp lp))) (\<lambda>u.
            await (call_executeBundle e bundleBytes prf))))))"

definition after_bundle :: "env \<Rightarrow> receipt \<Rightarrow> string \<Rightarrow> unit io" where
  "after_bundle e sendReceipt bundleBytes =
     bind_io (waitForL2ToL1LogProof e (blockNumber sendReceipt) (hash sendReceipt))
       (\<lambda>u. after_proof e sendReceipt bundleBytes)"

definition main :: "env \<Rightarrow> unit io" where
  "main e =
     bind_io (await (call_sendMessage e)) (\<lambda>sendReceipt.
     case sendReceipt of
       None \<Rightarrow> throw_io ''Missing receipt for sendMessage transaction''
     | Some r \<Rightarrow>
         (case bundleEvent e r of
            None \<Rightarrow> throw_io ''InteropBundleSent event not found in receipt logs.''
          | Some ev \<Rightarrow>
              (case abiEncode e (interopBundle ev) of
                 Throws m \<Rightarrow> throw_io m
               | Returns bundleBytes \<Rightarrow> after_bundle e r bundleBytes)))"

text \<open>
  \<^verbatim>\<open>main\<close> of the JavaScript version of the script: an interop message is sent first
  (its receipt is only printed), then an L2-to-L1 message whose inclusion is proved on the
  second chain. Reading a field of a \<open>null\<close> receipt or proof is a \<open>TypeError\<close>.
\<close>

definition call_sendToL1 :: "env \<Rightarrow> world \<Rightarrow> receipt option fetch \<times> world" where
  "call_sendToL1 e w = (sendToL1 e, emit EvSendToL1 w)"

definition call_proveInclusion :: "env \<Rightarrow> message_proof \<Rightarrow> world \<Rightarrow> bool fetch \<times> world" where
  "call_proveInclusion e p w = (proveL2MessageInclusionShared e p, emit (EvProveInclusion p) w)"

definition after_proof_js :: "env \<Rightarrow> receipt \<Rightarrow> unit io" where
  "after_proof_js e r =
     bind_io (await (call_getLogProof e (hash r) 0)) (\<lambda>logProof.
     case logProof of
       None \<Rightarrow> throw_io ''TypeError: Cannot read properties of null''
     | Some lp \<Rightarrow>
         bind_io (await (call_getNetwork e)) (\<lambda>chainIdA.
         bind_io (total_io (waitUntilRootBecomesAvailable e chainIdA (batch_number lp)
                              (root_lp lp))) (\<lambda>u.
         bind_io (await (call_getNetwork e)) (\<lambda>chainIdA2.
         bind_io (await (call_proveInclusion e
                    \<lparr>chainId_mp = chainIdA2, l1BatchNumber = batch_number lp,
                     l2MessageIndex = id_lp lp,
                     message_mp = \<lparr>txNumberInBatch = index_tx r,
                                   sender_msg = from_tx r, data_msg = ''hello interop''\<rparr>,
                     proof_mp = proof_lp lp\<rparr>)) (\<lambda>included.
         if \<not> included then throw_io ''Message was NOT included''
         else return_io ())))))"

definition main_js :: "env \<Rightarrow> unit io" where
  "main_js e =
     bind_io (await (call_sendMessage e)) (\<lambda>receiptB.
     case receiptB of
       None \<Rightarrow> throw_io ''TypeError: Cannot read properties of null''
     | Some rb \<Rightarrow>
     bind_io (await (call_sendToL1 e)) (\<lambda>receipt.
     case receipt of
       None \<Rightarrow> throw_io ''TypeError: Cannot read properties of null''
     | Some r \<Rightarrow>
         bind_io (waitForL2ToL1LogProof e (blockNumber r) (hash r))
           (\<lambda>u. after_proof_js e r)))"

section \<open>Comparison without regard to letter case\<close>

text \<open>
  What the specification calls a case-insensitive comparison, stated on the characters
  themselves and without the program's lower-casing: two texts have the same length and,
  position by position, the same character or the same ASCII letter in its capital and its
  small form.
\<close>

definition same_letter :: "char \<Rightarrow> char \<Rightarrow> bool" where
  "same_letter a b =
     (a = b \<or>
      (65 \<le> (of_char a :: nat) \<and> (of_char a :: nat) \<le> 90 \<and>
       (of_char b :: nat) = of_char a + 32) \<or>
      (65 \<le> (of_char b :: nat) \<and> (of_char b :: nat) \<le> 90 \<and>
       (of_char a :: nat) = of_char b + 32))"

definition equal_ignoring_case :: "string \<Rightarrow> string \<Rightarrow> bool" where
  "equal_ignoring_case x y = list_all2 same_letter x y"

section \<open>States reached by unsuccessful polling\<close>

text \<open>
  The state after \<open>k\<close> attempts that each found nothing and slept one interval.
\<close>

definition root_polled :: "env \<Rightarrow> int \<Rightarrow> int \<Rightarrow> nat \<Rightarrow> world \<Rightarrow> world" where
  "root_polled e c b k w =
     w\<lparr>rootCalls := rootCalls w + k, clock := clock w + k * POLL_INTERVAL,
       trace := trace w @ concat (replicate k [EvInteropRoots c b, EvSleep POLL_INTERVAL]),
       elapsed := elapsed w + k * POLL_INTERVAL +
                  (\<Sum>i<k. interopRoots_ms e c b (rootCalls w + i))\<rparr>"

definition block_polled :: "env \<Rightarrow> nat \<Rightarrow> world \<Rightarrow> world" where
  "block_polled e k w =
     w\<lparr>blockCalls := blockCalls w + k, clock := clock w + k * POLL_INTERVAL,
       trace := trace w @ concat (replicate k [EvGetBlock, EvSleep POLL_INTERVAL]),
       elapsed := elapsed w + k * POLL_INTERVAL + (\<Sum>i<k. getBlock_ms e (blockCalls w + i))\<rparr>"

definition proof_polled :: "env \<Rightarrow> string \<Rightarrow> nat \<Rightarrow> world \<Rightarrow> world" where
  "proof_polled e txHash k w =
     w\<lparr>proofCalls := proofCalls w + k, clock := clock w + k * pollingInterval e,
       trace := trace w @
         concat (replicate k [EvGetLogProof txHash 0, EvSleep (pollingInterval e)]),
       elapsed := elapsed w + k * pollingInterval e +
                  (\<Sum>i<k. getLogProof_ms e txHash 0 (proofCalls w + i))\<rparr>"

section \<open>Observing a run\<close>

text \<open>The calls a run has added to the trace.\<close>

definition new_events :: "world \<Rightarrow> world \<Rightarrow> event list" where
  "new_events w w' = drop (length (trace w)) (trace w')"

text \<open>Every call that a step adds satisfies \<open>P\<close>, whenever the step returns.\<close>

definition emits_only :: "(event \<Rightarrow> bool) \<Rightarrow> 'a io \<Rightarrow> bool" where
  "emits_only P m =
     (\<forall>w r w'. m w = Some (r, w') \<longrightarrow> (\<exists>evs. trace w' = trace w @ evs \<and> list_all P evs))"

text \<open>A proof query asks for log index 0.\<close>

definition index_zero :: "event \<Rightarrow> bool" where
  "index_zero ev = (case ev of EvGetLogProof h i \<Rightarrow> i = 0 | _ \<Rightarrow> True)"

section \<open>Example endpoints\<close>

definition root_ex :: string where
  "root_ex = ''0x5d1f0a2b3c4d5e6f708192a3b4c5d6e7f8091a2b3c4d5e6f708192a3b4c5d6e7''"

text \<open>The same digest written with capital hexadecimal digits, and a different digest.\<close>

definition root_ex_upper :: string where
  "root_ex_upper = ''0x5D1F0A2B3C4D5E6F708192A3B4C5D6E7F8091A2B3C4D5E6F708192A3B4C5D6E7''"

definition root_other :: string where
  "root_other = ''0x7e1f0a2b3c4d5e6f708192a3b4c5d6e7f8091a2b3c4d5e6f708192a3b4c5d6e7''"

definition receipt_ex :: receipt where
  "receipt_ex =
     \<lparr>hash = ''0xabc1'', blockNumber = 5, index_tx = 2,
      from_tx = ''0x36615cf349d7f6344891b1e7ca7c72883f5dc049'',
      logs = Some [\<lparr>address_log = ''0x0000000000000000000000000000000000010010'',
                    topics = [''0x01''], data_log = ''0x''\<rparr>],
      l2ToL1Logs = Some [\<lparr>sender = ''0x0000000000000000000000000000000000008008'',
                          data_l2 = ''0x11''\<rparr>,
                         \<lparr>sender = ''0x0000000000000000000000000000000000010010'',
                          data_l2 = ''0x22''\<rparr>]\<rparr>"

definition proof_ex :: log_proof where
  "proof_ex = \<lparr>batch_number = 7, id_lp = 1, root_lp = root_ex, proof_lp = [''0x01'', ''0x02'']\<rparr>"

text \<open>Endpoints on which nothing ever becomes available; every read takes 50 ms.\<close>

definition env_idle :: env where
  "env_idle =
     \<lparr>getBlock = (\<lambda>k. Returns None),
      getLogProof = (\<lambda>h i k. Returns None),
      pollingInterval = 1000,
      interopRoots = (\<lambda>c b k. Returns ZeroRoot),
      getNetwork = Returns 270,
      sendMessage = Returns (Some receipt_ex),
      parseLog = (\<lambda>l. Returns None),
      abiEncode = (\<lambda>b. Returns b),
      executeBundle = (\<lambda>bs p. Returns ()),
      sendToL1 = Returns (Some receipt_ex),
      proveL2MessageInclusionShared = (\<lambda>p. Returns True),
      getBlock_ms = (\<lambda>k. 50),
      getLogProof_ms = (\<lambda>h i k. 50),
      interopRoots_ms = (\<lambda>c b k. 50)\<rparr>"

text \<open>
  Endpoints that fail twice, then answer: the block is final from the third read on, the
  proof exists from the fourth query on, the root is stored from the fifth read on.
\<close>

definition env_ready :: env where
  "env_ready =
     \<lparr>getBlock = (\<lambda>k. if k < 2 then Throws ''ECONNRESET''
                        else Returns (Some \<lparr>number = 5\<rparr>)),
      getLogProof = (\<lambda>h i k. if k < 3 then Returns None else Returns (Some proof_ex)),
      pollingInterval = 1000,
      interopRoots = (\<lambda>c b k. if k < 2 then Throws ''ECONNRESET''
                            else if k < 4 then Returns ZeroRoot else Returns root_ex),
      getNetwork = Returns 270,
      sendMessage = Returns (Some receipt_ex),
      parseLog = (\<lambda>l. Returns (Some \<lparr>name = ''InteropBundleSent'', interopBundle = ''0xb0''\<rparr>)),
      abiEncode = (\<lambda>b. Returns b),
      executeBundle = (\<lambda>bs p. Returns ()),
      sendToL1 = Returns (Some receipt_ex),
      proveL2MessageInclusionShared = (\<lambda>p. Returns True),
      getBlock_ms = (\<lambda>k. 20),
      getLogProof_ms = (\<lambda>h i k. 30),
      interopRoots_ms = (\<lambda>c b k. 10)\<rparr>"

text \<open>Endpoints with a final block whose proof is never produced.\<close>

definition env_no_proof :: env where
  "env_no_proof =
     env_ready\<lparr>getBlock := (\<lambda>k. Returns (Some \<lparr>number = 5\<rparr>)),
               getLogProof := (\<lambda>h i k. Returns None)\<rparr>"

text \<open>
  Endpoints with a final block whose first proof query is rejected; the second one would
  answer with the proof.
\<close>

definition env_flaky :: env where
  "env_flaky =
     env_ready\<lparr>getBlock := (\<lambda>k. Returns (Some \<lparr>number = 5\<rparr>)),
               getLogProof := (\<lambda>h i k. if k = 0 then Throws ''ECONNRESET''
                                       else Returns (Some proof_ex))\<rparr>"

text \<open>The state in which \<^verbatim>\<open>main\<close> of the TypeScript script ends on \<open>env_ready\<close>.\<close>

definition run_ready :: world where
  "run_ready =
   \<lparr>blockCalls = 3, proofCalls = 5, rootCalls = 5, clock = 3600,
      elapsed = 3860,
      trace =
        [EvSendMessage, EvGetBlock, EvSleep 100, EvGetBlock, EvSleep 100,
         EvGetBlock, EvGetLogProof ''0xabc1'' 0, EvSleep 1000,
         EvGetLogProof ''0xabc1'' 0, EvSleep 1000,
         EvGetLogProof ''0xabc1'' 0, EvSleep 1000,
         EvGetLogProof ''0xabc1'' 0, EvGetLogProof ''0xabc1'' 0,
         EvGetNetwork, EvGetNetwork, EvInteropRoots 270 7, EvSleep 100,
         EvInteropRoots 270 7, EvSleep 100, EvInteropRoots 270 7,
         EvSleep 100, EvInteropRoots 270 7, EvSleep 100,
         EvInteropRoots 270 7,
         EvExecuteBundle ''0xb0''
          \<lparr>chainId_mp = 270, l1BatchNumber = 7, l2MessageIndex = 1,
             message_mp =
               \<lparr>txNumberInBatch = 2,
                  sender_msg = ''0x0000000000000000000000000000000000010010'',
                  data_msg = ''0x22''\<rparr>,
             proof_mp = [''0x01'', ''0x02'']\<rparr>]\<rparr>"

text \<open>The state in which \<^verbatim>\<open>main\<close> of the JavaScript script ends on \<open>env_ready\<close>.\<close>

definition run_ready_js :: world where
  "run_ready_js =
   \<lparr>blockCalls = 3, proofCalls = 5, rootCalls = 5, clock = 3600,
      elapsed = 3860,
      trace =
        [EvSendMessage, EvSendToL1, EvGetBlock, EvSleep 100, EvGetBlock,
         EvSleep 100, EvGetBlock, EvGetLogProof ''0xabc1'' 0, EvSleep 1000,
         EvGetLogProof ''0xabc1'' 0, EvSleep 1000,
         EvGetLogProof ''0xabc1'' 0, EvSleep 1000,
         EvGetLogProof ''0xabc1'' 0, EvGetLogProof ''0xabc1'' 0,
         EvGetNetwork, EvInteropRoots 270 7, EvSleep 100,
         EvInteropRoots 270 7, EvSleep 100, EvInteropRoots 270 7,
         EvSleep 100, EvInteropRoots 270 7, EvSleep 100,
         EvInteropRoots 270 7, EvGetNetwork,
         EvProveInclusion
          \<lparr>chainId_mp = 270, l1BatchNumber = 7, l2MessageIndex = 1,
             message_mp =
               \<lparr>txNumberInBatch = 2, sender_msg = ''0x36615cf349d7f6344891b1e7ca7c72883f5dc049'',
                  data_msg = ''hello interop''\<rparr>,
             proof_mp = [''0x01'', ''0x02'']\<rparr>]\<rparr>"

section \<open>Lower-casing decides equality up to letter case\<close>

lemma of_char_lower:
  assumes "65 \<le> (of_char a :: nat)" "(of_char a :: nat) \<le> 90"
  shows "(of_char (lower_char a) :: nat) = of_char a + 32"
  using assms by (simp add: lower_char_def Let_def)

lemma of_char_lower_other:
  assumes "\<not> (65 \<le> (of_char a :: nat) \<and> (of_char a :: nat) \<le> 90)"
  shows "lower_char a = a"
  using assms by (auto simp add: lower_char_def Let_def)

lemma lower_char_eq_iff: "lower_char a = lower_char b \<longleftrightarrow> same_letter a b"
proof -
  have inj: "\<And>x y. ((of_char x :: nat) = of_char y) = (x = y)" by simp
  have eq: "lower_char a = lower_char b \<longleftrightarrow> (of_char (lower_char a) :: nat) = of_char (lower_char b)"
    by simp
  show ?thesis
  proof (cases "65 \<le> (of_char a :: nat) \<and> (of_char a :: nat) \<le> 90")
    case ua: True
    show ?thesis
    proof (cases "65 \<le> (of_char b :: nat) \<and> (of_char b :: nat) \<le> 90")
      case True
      with ua show ?thesis unfolding eq by (auto simp: of_char_lower same_letter_def)
    next
      case False
      with ua show ?thesis unfolding eq
        by (auto simp: of_char_lower of_char_lower_other same_letter_def)
    qed
  next
    case na: False
    show ?thesis
    proof (cases "65 \<le> (of_char b :: nat) \<and> (of_char b :: nat) \<le> 90")
      case True
      with na show ?thesis unfolding eq
        by (auto simp: of_char_lower of_char_lower_other same_letter_def)
    next
      case False
      with na show ?thesis by (auto simp: of_char_lower_other same_letter_def)
    qed
  qed
qed

lemma toLowerCase_eq_iff: "toLowerCase x = toLowerCase y \<longleftrightarrow> equal_ignoring_case x y"
proof -
  have "map lower_char x = map lower_char y \<longleftrightarrow> list_all2 (\<lambda>a b. lower_char a = lower_char b) x y"
  proof (induction x arbitrary: y)
    case Nil
    show ?case by (cases y) simp_all
  next
    case (Cons a x)
    show ?case by (cases y) (simp_all add: Cons.IH)
  qed
  then show ?thesis by (simp add: toLowerCase_def equal_ignoring_case_def lower_char_eq_iff)
qed

lemma root_ex_upper_same: "equal_ignoring_case root_ex root_ex_upper"
  by (simp add: equal_ignoring_case_def same_letter_def root_ex_def root_ex_upper_def)

lemma root_other_differs: "\<not> equal_ignoring_case root_ex root_other"
  by (simp add: equal_ignoring_case_def same_letter_def root_ex_def root_other_def)

section \<open>Unsuccessful attempts only use up the budget\<close>

lemma root_polled_0: "root_polled e c b 0 w = w"
  by (simp add: root_polled_def)

lemma sum_shift: "(\<Sum>i<Suc k. f (n + i)) = f n + (\<Sum>i<k. f (Suc n + i))"
  for f :: "nat \<Rightarrow> nat"
  by (simp add: sum.lessThan_Suc_shift del: sum.lessThan_Suc)

lemma root_polled_Suc:
  "root_polled e c b k (sleep POLL_INTERVAL (snd (call_interopRoots e c b w))) = root_polled e c b (Suc k) w"
  by (simp add: root_polled_def sleep_def emit_def call_interopRoots_def sum_shift
      del: sum.lessThan_Suc)

lemma root_loop_skip:
  "k \<le> r \<Longrightarrow> \<forall>i<k. \<not> root_present (root_of (interopRoots e c b (rootCalls w + i))) \<Longrightarrow>
   root_loop e c b x r w = root_loop e c b x (r - k) (root_polled e c b k w)"
proof (induction k arbitrary: r w)
  case 0
  then show ?case by (simp add: root_polled_0)
next
  case (Suc k)
  then obtain r' where r: "r = Suc r'" and kr: "k \<le> r'" by (cases r) auto
  let ?w1 = "sleep POLL_INTERVAL (snd (call_interopRoots e c b w))"
  from Suc.prems(2) have first: "\<not> root_present (root_of (interopRoots e c b (rootCalls w)))"
    by (metis add.right_neutral zero_less_Suc)
  have rc: "rootCalls ?w1 = Suc (rootCalls w)"
    by (simp add: sleep_def emit_def call_interopRoots_def)
  have rest: "\<forall>i<k. \<not> root_present (root_of (interopRoots e c b (rootCalls ?w1 + i)))"
    using Suc.prems(2) rc by (metis Suc_less_eq add_Suc_shift)
  have "root_loop e c b x r w = root_loop e c b x r' ?w1"
    using first by (simp add: r call_interopRoots_def)
  also have "\<dots> = root_loop e c b x (r' - k) (root_polled e c b k ?w1)"
    by (rule Suc.IH[OF kr rest])
  finally show ?case by (simp add: r root_polled_Suc)
qed

lemma block_polled_0: "block_polled e 0 w = w"
  by (simp add: block_polled_def)

lemma block_polled_Suc:
  "block_polled e k (sleep POLL_INTERVAL (snd (call_getBlock e w))) = block_polled e (Suc k) w"
  by (simp add: block_polled_def sleep_def emit_def call_getBlock_def sum_shift
      del: sum.lessThan_Suc)

lemma finalized_loop_skip:
  "k \<le> r \<Longrightarrow> \<forall>i<k. executedBlock (getBlock e (blockCalls w + i)) < n \<Longrightarrow>
   finalized_loop e n r w = finalized_loop e n (r - k) (block_polled e k w)"
proof (induction k arbitrary: r w)
  case 0
  then show ?case by (simp add: block_polled_0)
next
  case (Suc k)
  then obtain r' where r: "r = Suc r'" and kr: "k \<le> r'" by (cases r) auto
  let ?w1 = "sleep POLL_INTERVAL (snd (call_getBlock e w))"
  from Suc.prems(2) have first: "executedBlock (getBlock e (blockCalls w)) < n"
    by (metis add.right_neutral zero_less_Suc)
  have rc: "blockCalls ?w1 = Suc (blockCalls w)"
    by (simp add: sleep_def emit_def call_getBlock_def)
  have rest: "\<forall>i<k. executedBlock (getBlock e (blockCalls ?w1 + i)) < n"
    using Suc.prems(2) rc by (metis Suc_less_eq add_Suc_shift)
  have "finalized_loop e n r w = finalized_loop e n r' ?w1"
    using first by (simp add: r call_getBlock_def)
  also have "\<dots> = finalized_loop e n (r' - k) (block_polled e k ?w1)"
    by (rule Suc.IH[OF kr rest])
  finally show ?case by (simp add: r block_polled_Suc)
qed

lemma finalized_loop_timeout:
  assumes "\<forall>i<r. executedBlock (getBlock e (blockCalls w + i)) < n"
  shows "finalized_loop e n r w = (Inl (Error ''Block was not finalized in time''), block_polled e r w)"
  using finalized_loop_skip[OF le_refl assms] by simp

lemma root_loop_timeout:
  assumes "\<forall>i<r. \<not> root_present (root_of (interopRoots e c b (rootCalls w + i)))"
  shows "root_loop e c b x r w =
         (Inl (Error ''Interop root did not become available in time''), root_polled e c b r w)"
  using root_loop_skip[OF le_refl assms] by simp

lemma finalized_loop_hit:
  assumes "k < r" and "\<forall>i<k. executedBlock (getBlock e (blockCalls w + i)) < n"
      and "n \<le> executedBlock (getBlock e (blockCalls w + k))"
  shows "finalized_loop e n r w = (Inr (), snd (call_getBlock e (block_polled e k w)))"
proof -
  from assms(1) obtain d where d: "r - k = Suc d" by (cases "r - k") auto
  have "finalized_loop e n r w = finalized_loop e n (Suc d) (block_polled e k w)"
    using finalized_loop_skip[of k r e w n] assms d by simp
  also have "\<dots> = (Inr (), snd (call_getBlock e (block_polled e k w)))"
    using assms(3) by (simp add: call_getBlock_def block_polled_def)
  finally show ?thesis .
qed

lemma root_loop_hit:
  assumes "k < r" and "\<forall>i<k. \<not> root_present (root_of (interopRoots e c b (rootCalls w + i)))"
      and "interopRoots e c b (rootCalls w + k) = Returns v" and "root_present (Some v)"
  shows "root_loop e c b x r w =
         (if toLowerCase v = toLowerCase x then Inr ()
          else Inl (Error (mismatch_message x v)),
          snd (call_interopRoots e c b (root_polled e c b k w)))"
proof -
  from assms(1) obtain d where d: "r - k = Suc d" by (cases "r - k") auto
  have "root_loop e c b x r w = root_loop e c b x (Suc d) (root_polled e c b k w)"
    using root_loop_skip[of k r e c b w x] assms d by simp
  also have "\<dots> = (if toLowerCase v = toLowerCase x then Inr ()
          else Inl (Error (mismatch_message x v)),
          snd (call_interopRoots e c b (root_polled e c b k w)))"
    using assms(3,4) by (simp add: call_interopRoots_def root_polled_def root_of_def)
  finally show ?thesis .
qed

lemma budget: "DEFAULT_TIMEOUT div POLL_INTERVAL = 600"
  by (simp add: DEFAULT_TIMEOUT_def POLL_INTERVAL_def)

lemma ZeroRoot_literal:
  "ZeroRoot = ''0x0000000000000000000000000000000000000000000000000000000000000000''"
  by code_simp

lemma root_present_simps:
  "\<not> root_present None"
  "\<not> root_present (Some [])"
  "\<not> root_present (Some ZeroAddress)"
  "\<not> root_present (Some ZeroRoot)"
  by (simp_all add: root_present_def)

lemma root_ex_present: "root_present (Some root_ex)"
  by (simp add: root_present_def root_ex_def ZeroAddress_def ZeroRoot_literal)

section \<open>Timeout of the waiters\<close>

lemma budget_time: "(DEFAULT_TIMEOUT div POLL_INTERVAL) * POLL_INTERVAL = DEFAULT_TIMEOUT"
  by (simp add: DEFAULT_TIMEOUT_def POLL_INTERVAL_def)

text \<open>
  Claim C3 (as amended). A waiter whose every attempt finds nothing ends with its timeout
  error after exactly \<open>DEFAULT_TIMEOUT div POLL_INTERVAL\<close> (600) fetch attempts, each followed
  by one sleep of \<open>POLL_INTERVAL\<close>. The loop counts attempts and has no deadline, so the
  time that passes is the 600 sleeps plus the time the 600 reads took: it is never less
  than the timeout (hence never earlier than timeout minus interval), and it stays within
  timeout plus interval exactly when the reads together take no more than one interval.
  For the finality waiter "nothing" is a finalized height below the requested block, where
  a missing block and a rejected read count as height 0; for the root waiter it is a
  rejected read, an empty value, the zero address or the zero digest.
\<close>

theorem always_absent_times_out:
  "((\<forall>k < DEFAULT_TIMEOUT div POLL_INTERVAL.
        executedBlock (getBlock e (blockCalls w + k)) < blockNum) \<longrightarrow>
    (case waitUntilBlockFinalized e blockNum w of (res, w') \<Rightarrow>
       res = Inl (Error ''Block was not finalized in time'') \<and>
       blockCalls w' = blockCalls w + DEFAULT_TIMEOUT div POLL_INTERVAL \<and>
       trace w' = trace w @
         concat (replicate (DEFAULT_TIMEOUT div POLL_INTERVAL) [EvGetBlock, EvSleep POLL_INTERVAL]) \<and>
       clock w' = clock w + (DEFAULT_TIMEOUT div POLL_INTERVAL) * POLL_INTERVAL \<and>
       elapsed w' = elapsed w + (DEFAULT_TIMEOUT div POLL_INTERVAL) * POLL_INTERVAL +
         (\<Sum>k < DEFAULT_TIMEOUT div POLL_INTERVAL. getBlock_ms e (blockCalls w + k)) \<and>
       DEFAULT_TIMEOUT - POLL_INTERVAL \<le> elapsed w' - elapsed w \<and>
       (elapsed w' - elapsed w \<le> DEFAULT_TIMEOUT + POLL_INTERVAL) =
         ((\<Sum>k < DEFAULT_TIMEOUT div POLL_INTERVAL. getBlock_ms e (blockCalls w + k))
            \<le> POLL_INTERVAL))) \<and>
   ((\<forall>k < DEFAULT_TIMEOUT div POLL_INTERVAL.
        \<not> root_present (root_of (interopRoots e c b (rootCalls w + k)))) \<longrightarrow>
    (case waitUntilRootBecomesAvailable e c b expectedRoot w of (res, w') \<Rightarrow>
       res = Inl (Error ''Interop root did not become available in time'') \<and>
       rootCalls w' = rootCalls w + DEFAULT_TIMEOUT div POLL_INTERVAL \<and>
       trace w' = trace w @
         concat (replicate (DEFAULT_TIMEOUT div POLL_INTERVAL)
                   [EvInteropRoots c b, EvSleep POLL_INTERVAL]) \<and>
       clock w' = clock w + (DEFAULT_TIMEOUT div POLL_INTERVAL) * POLL_INTERVAL \<and>
       elapsed w' = elapsed w + (DEFAULT_TIMEOUT div POLL_INTERVAL) * POLL_INTERVAL +
         (\<Sum>k < DEFAULT_TIMEOUT div POLL_INTERVAL. interopRoots_ms e c b (rootCalls w + k)) \<and>
       DEFAULT_TIMEOUT - POLL_INTERVAL \<le> elapsed w' - elapsed w \<and>
       (elapsed w' - elapsed w \<le> DEFAULT_TIMEOUT + POLL_INTERVAL) =
         ((\<Sum>k < DEFAULT_TIMEOUT div POLL_INTERVAL. interopRoots_ms e c b (rootCalls w + k))
            \<le> POLL_INTERVAL)))"
proof (intro conjI impI)
  assume a: "\<forall>k < DEFAULT_TIMEOUT div POLL_INTERVAL.
        executedBlock (getBlock e (blockCalls w + k)) < blockNum"
  show "case waitUntilBlockFinalized e blockNum w of (res, w') \<Rightarrow>
       res = Inl (Error ''Block was not finalized in time'') \<and>
       blockCalls w' = blockCalls w + DEFAULT_TIMEOUT div POLL_INTERVAL \<and>
       trace w' = trace w @
         concat (replicate (DEFAULT_TIMEOUT div POLL_INTERVAL) [EvGetBlock, EvSleep POLL_INTERVAL]) \<and>
       clock w' = clock w + (DEFAULT_TIMEOUT div POLL_INTERVAL) * POLL_INTERVAL \<and>
       elapsed w' = elapsed w + (DEFAULT_TIMEOUT div POLL_INTERVAL) * POLL_INTERVAL +
         (\<Sum>k < DEFAULT_TIMEOUT div POLL_INTERVAL. getBlock_ms e (blockCalls w + k)) \<and>
       DEFAULT_TIMEOUT - POLL_INTERVAL \<le> elapsed w' - elapsed w \<and>
       (elapsed w' - elapsed w \<le> DEFAULT_TIMEOUT + POLL_INTERVAL) =
         ((\<Sum>k < DEFAULT_TIMEOUT div POLL_INTERVAL. getBlock_ms e (blockCalls w + k))
            \<le> POLL_INTERVAL)"
    unfolding waitUntilBlockFinalized_def finalized_loop_timeout[OF a]
    by (simp add: block_polled_def budget_time)
next
  assume a: "\<forall>k < DEFAULT_TIMEOUT div POLL_INTERVAL.
        \<not> root_present (root_of (interopRoots e c b (rootCalls w + k)))"
  show "case waitUntilRootBecomesAvailable e c b expectedRoot w of (res, w') \<Rightarrow>
       res = Inl (Error ''Interop root did not become available in time'') \<and>
       rootCalls w' = rootCalls w + DEFAULT_TIMEOUT div POLL_INTERVAL \<and>
       trace w' = trace w @
         concat (replicate (DEFAULT_TIMEOUT div POLL_INTERVAL)
                   [EvInteropRoots c b, EvSleep POLL_INTERVAL]) \<and>
       clock w' = clock w + (DEFAULT_TIMEOUT div POLL_INTERVAL) * POLL_INTERVAL \<and>
       elapsed w' = elapsed w + (DEFAULT_TIMEOUT div POLL_INTERVAL) * POLL_INTERVAL +
         (\<Sum>k < DEFAULT_TIMEOUT div POLL_INTERVAL. interopRoots_ms e c b (rootCalls w + k)) \<and>
       DEFAULT_TIMEOUT - POLL_INTERVAL \<le> elapsed w' - elapsed w \<and>
       (elapsed w' - elapsed w \<le> DEFAULT_TIMEOUT + POLL_INTERVAL) =
         ((\<Sum>k < DEFAULT_TIMEOUT div POLL_INTERVAL. interopRoots_ms e c b (rootCalls w + k))
            \<le> POLL_INTERVAL)"
    unfolding waitUntilRootBecomesAvailable_def root_loop_timeout[OF a]
    by (simp add: root_polled_def budget_time)
qed

lemma env_idle_fields:
  "getBlock env_idle k = Returns None"
  "interopRoots env_idle c b k = Returns ZeroRoot"
  "getBlock_ms env_idle k = 50"
  "interopRoots_ms env_idle c b k = 50"
  by (simp_all add: env_idle_def)

theorem always_absent_times_out_witness:
  "fst (waitUntilBlockFinalized env_idle 5 world0) = Inl (Error ''Block was not finalized in time'') \<and>
   blockCalls (snd (waitUntilBlockFinalized env_idle 5 world0)) = 600 \<and>
   elapsed (snd (waitUntilBlockFinalized env_idle 5 world0)) = 90000 \<and>
   fst (waitUntilRootBecomesAvailable env_idle 270 7 root_ex world0) =
     Inl (Error ''Interop root did not become available in time'') \<and>
   rootCalls (snd (waitUntilRootBecomesAvailable env_idle 270 7 root_ex world0)) = 600 \<and>
   elapsed (snd (waitUntilRootBecomesAvailable env_idle 270 7 root_ex world0)) = 90000"
proof -
  have b: "\<forall>k < DEFAULT_TIMEOUT div POLL_INTERVAL.
             executedBlock (getBlock env_idle (blockCalls world0 + k)) < 5"
    by (simp add: env_idle_fields executedBlock_def)
  have r: "\<forall>k < DEFAULT_TIMEOUT div POLL_INTERVAL.
             \<not> root_present (root_of (interopRoots env_idle 270 7 (rootCalls world0 + k)))"
    by (simp add: env_idle_fields root_of_def root_present_simps)
  from always_absent_times_out[of env_idle world0 5 270 7 root_ex, unfolded budget]
    b[unfolded budget] r[unfolded budget]
  show ?thesis
    by (auto simp: world0_def env_idle_fields POLL_INTERVAL_def split: prod.splits)
qed

text \<open>
  Claim C3 as stated fails in its upper bound: when every read takes 50 ms, the finality
  waiter ends after 600 rounds of 150 ms, which is 90000 ms, while timeout plus interval
  is 60100 ms.
\<close>

theorem timeout_elapsed_counterexample:
  "fst (waitUntilBlockFinalized env_idle 5 world0) = Inl (Error ''Block was not finalized in time'') \<and>
   elapsed (snd (waitUntilBlockFinalized env_idle 5 world0)) - elapsed world0 = 90000 \<and>
   DEFAULT_TIMEOUT + POLL_INTERVAL = 60100"
proof -
  have b: "\<forall>k < DEFAULT_TIMEOUT div POLL_INTERVAL.
             executedBlock (getBlock env_idle (blockCalls world0 + k)) < 5"
    by (simp add: env_idle_fields executedBlock_def)
  have run: "waitUntilBlockFinalized env_idle 5 world0 =
      (Inl (Error ''Block was not finalized in time''),
       block_polled env_idle (DEFAULT_TIMEOUT div POLL_INTERVAL) world0)"
    unfolding waitUntilBlockFinalized_def by (rule finalized_loop_timeout[OF b])
  show ?thesis
    unfolding run budget
    by (simp add: block_polled_def world0_def env_idle_fields POLL_INTERVAL_def
        DEFAULT_TIMEOUT_def)
qed

lemma calls_after_block_hit:
  "blockCalls (snd (call_getBlock e (block_polled e k w))) = blockCalls w + k + 1"
  by (simp add: call_getBlock_def block_polled_def emit_def)

lemma root_hit_fields:
  "rootCalls (snd (call_interopRoots e c b (root_polled e c b k w))) = rootCalls w + k + 1"
  "clock (snd (call_interopRoots e c b (root_polled e c b k w))) = clock w + k * POLL_INTERVAL"
  "trace (snd (call_interopRoots e c b (root_polled e c b k w))) =
     trace w @ concat (replicate k [EvInteropRoots c b, EvSleep POLL_INTERVAL]) @ [EvInteropRoots c b]"
  by (simp_all add: call_interopRoots_def root_polled_def emit_def)

section \<open>The first non-zero root decides\<close>

text \<open>
  Claim C1. Let attempt \<open>k + 1\<close> (within the budget of 600) be the first attempt of the
  root-availability waiter that reads a non-zero root \<open>v\<close>. Then the waiter ends at that
  attempt: with success if \<open>v\<close> and \<open>expectedRoot\<close> are equal without regard to letter case,
  and otherwise with the error "Interop root mismatch" whose message holds both the
  expected and the read value. It has made \<open>k + 1\<close> reads, and the read of \<open>v\<close> is the last
  thing it did.
\<close>

theorem root_first_observation_decides:
  assumes "k < DEFAULT_TIMEOUT div POLL_INTERVAL"
      and "\<forall>i<k. \<not> root_present (root_of (interopRoots e c b (rootCalls w + i)))"
      and "interopRoots e c b (rootCalls w + k) = Returns v"
      and "root_present (Some v)"
  shows "case waitUntilRootBecomesAvailable e c b expectedRoot w of (res, w') \<Rightarrow>
           res = (if equal_ignoring_case v expectedRoot then Inr ()
                  else Inl (Error (''Interop root mismatch: expected '' @ expectedRoot @
                                   '', got '' @ v))) \<and>
           rootCalls w' = rootCalls w + k + 1 \<and>
           clock w' = clock w + k * POLL_INTERVAL \<and>
           trace w' = trace w @ concat (replicate k [EvInteropRoots c b, EvSleep POLL_INTERVAL])
                        @ [EvInteropRoots c b]"
  unfolding waitUntilRootBecomesAvailable_def root_loop_hit[OF assms]
  by (simp add: root_hit_fields mismatch_message_def toLowerCase_eq_iff)

theorem root_first_observation_decides_witness:
  "fst (waitUntilRootBecomesAvailable env_ready 270 7 root_ex_upper world0) = Inr () \<and>
   rootCalls (snd (waitUntilRootBecomesAvailable env_ready 270 7 root_ex_upper world0)) = 5 \<and>
   fst (waitUntilRootBecomesAvailable env_ready 270 7 root_other world0) =
     Inl (Error (''Interop root mismatch: expected '' @ root_other @ '', got '' @ root_ex)) \<and>
   rootCalls (snd (waitUntilRootBecomesAvailable env_ready 270 7 root_other world0)) = 5"
proof -
  have k: "4 < DEFAULT_TIMEOUT div POLL_INTERVAL" by (simp add: budget)
  have a: "\<forall>i<4. \<not> root_present (root_of (interopRoots env_ready 270 7 (rootCalls world0 + i)))"
    by (simp add: env_ready_def root_of_def root_present_simps world0_def)
  have h: "interopRoots env_ready 270 7 (rootCalls world0 + 4) = Returns root_ex"
    by (simp add: env_ready_def world0_def)
  from root_first_observation_decides[OF k a h root_ex_present, of root_ex_upper]
    root_first_observation_decides[OF k a h root_ex_present, of root_other]
  show ?thesis
    by (simp add: world0_def root_ex_upper_same root_other_differs split: prod.splits)
qed

lemma finalized_loop_error:
  "fst (finalized_loop e n r w) = Inl err \<Longrightarrow>
   err = Error ''Block was not finalized in time'' \<and>
   blockCalls (snd (finalized_loop e n r w)) = blockCalls w + r"
proof (induction r arbitrary: w)
  case 0
  then show ?case by simp
next
  case (Suc r)
  let ?w1 = "sleep POLL_INTERVAL (snd (call_getBlock e w))"
  have rc: "blockCalls ?w1 = Suc (blockCalls w)"
    by (simp add: sleep_def emit_def call_getBlock_def)
  show ?case
  proof (cases "n \<le> executedBlock (getBlock e (blockCalls w))")
    case True
    with Suc.prems show ?thesis by (simp add: call_getBlock_def)
  next
    case False
    then have eq: "finalized_loop e n (Suc r) w = finalized_loop e n r ?w1"
      by (simp add: call_getBlock_def)
    with Suc.prems have "fst (finalized_loop e n r ?w1) = Inl err" by simp
    from Suc.IH[OF this] show ?thesis unfolding eq by (simp add: rc)
  qed
qed

lemma root_loop_error:
  "fst (root_loop e c b x r w) = Inl err \<Longrightarrow>
   (err = Error ''Interop root did not become available in time'' \<and>
    rootCalls (snd (root_loop e c b x r w)) = rootCalls w + r) \<or>
   (\<exists>j<r. \<exists>v. interopRoots e c b (rootCalls w + j) = Returns v \<and> root_present (Some v) \<and>
       toLowerCase v \<noteq> toLowerCase x \<and> err = Error (mismatch_message x v))"
proof (induction r arbitrary: w)
  case 0
  then show ?case by simp
next
  case (Suc r)
  let ?w1 = "sleep POLL_INTERVAL (snd (call_interopRoots e c b w))"
  have rc: "rootCalls ?w1 = Suc (rootCalls w)"
    by (simp add: sleep_def emit_def call_interopRoots_def)
  show ?case
  proof (cases "root_present (root_of (interopRoots e c b (rootCalls w)))")
    case True
    then obtain v where v: "interopRoots e c b (rootCalls w) = Returns v" "root_present (Some v)"
      by (cases "interopRoots e c b (rootCalls w)") (auto simp: root_of_def root_present_def)
    with Suc.prems have "toLowerCase v \<noteq> toLowerCase x \<and> err = Error (mismatch_message x v)"
      by (simp add: call_interopRoots_def root_of_def split: if_splits)
    with v have "\<exists>j<Suc r. \<exists>v. interopRoots e c b (rootCalls w + j) = Returns v \<and>
        root_present (Some v) \<and> toLowerCase v \<noteq> toLowerCase x \<and> err = Error (mismatch_message x v)"
      by (intro exI[of _ 0]) simp
    then show ?thesis ..
  next
    case False
    then have eq: "root_loop e c b x (Suc r) w = root_loop e c b x r ?w1"
      by (simp add: call_interopRoots_def)
    with Suc.prems have "fst (root_loop e c b x r ?w1) = Inl err" by simp
    from Suc.IH[OF this] show ?thesis
    proof
      assume "err = Error ''Interop root did not become available in time'' \<and>
        rootCalls (snd (root_loop e c b x r ?w1)) = rootCalls ?w1 + r"
      then show ?thesis unfolding eq by (simp add: rc)
    next
      assume "\<exists>j<r. \<exists>v. interopRoots e c b (rootCalls ?w1 + j) = Returns v \<and> root_present (Some v) \<and>
         toLowerCase v \<noteq> toLowerCase x \<and> err = Error (mismatch_message x v)"
      then obtain j v where "j < r" "interopRoots e c b (rootCalls w + Suc j) = Returns v"
         "root_present (Some v)" "toLowerCase v \<noteq> toLowerCase x" "err = Error (mismatch_message x v)"
        by (auto simp: rc)
      then have "\<exists>j<Suc r. \<exists>v. interopRoots e c b (rootCalls w + j) = Returns v \<and>
        root_present (Some v) \<and> toLowerCase v \<noteq> toLowerCase x \<and> err = Error (mismatch_message x v)"
        by (intro exI[of _ "Suc j"]) simp
      then show ?thesis ..
    qed
  qed
qed

lemma finalized_loop_success:
  assumes "j < r" and "n \<le> executedBlock (getBlock e (blockCalls w + j))"
  shows "fst (finalized_loop e n r w) = Inr () \<and>
         blockCalls (snd (finalized_loop e n r w)) \<le> blockCalls w + j + 1"
proof -
  define k where "k = (LEAST i. n \<le> executedBlock (getBlock e (blockCalls w + i)))"
  have kj: "k \<le> j" unfolding k_def by (rule Least_le) (rule assms(2))
  have hit: "n \<le> executedBlock (getBlock e (blockCalls w + k))"
    unfolding k_def by (rule LeastI) (rule assms(2))
  have before: "\<forall>i<k. executedBlock (getBlock e (blockCalls w + i)) < n"
    unfolding k_def using not_less_Least by fastforce
  from kj assms(1) have "k < r" by simp
  from finalized_loop_hit[OF this before hit] kj show ?thesis
    by (simp add: calls_after_block_hit)
qed

lemma executedBlock_Throws: "executedBlock (Throws m) = 0"
  by (simp add: executedBlock_def)

lemma root_of_Throws: "root_of (Throws m) = None"
  by (simp add: root_of_def)

section \<open>The zero digest as expected root\<close>

lemma toLowerCase_ZeroRoot: "toLowerCase ZeroRoot = ZeroRoot"
  by code_simp

lemma root_loop_retry:
  assumes "\<not> root_present (root_of (interopRoots e c b (rootCalls w)))"
  shows "root_loop e c b x (Suc r) w =
         root_loop e c b x r (sleep POLL_INTERVAL (snd (call_interopRoots e c b w)))"
  using assms by (simp add: call_interopRoots_def)

lemma root_loop_zero_expected_never_succeeds:
  assumes "\<forall>k v. interopRoots e c b k = Returns v \<longrightarrow> toLowerCase v = v"
  shows "fst (root_loop e c b ZeroRoot r w) \<noteq> Inr ()"
proof (induction r arbitrary: w)
  case 0
  show ?case by simp
next
  case (Suc r)
  show ?case
  proof (cases "root_present (root_of (interopRoots e c b (rootCalls w)))")
    case True
    then obtain v where v: "interopRoots e c b (rootCalls w) = Returns v" "root_present (Some v)"
      by (cases "interopRoots e c b (rootCalls w)") (auto simp: root_of_def root_present_def)
    from v(1) assms have "toLowerCase v = v" by blast
    moreover from v(2) have "v \<noteq> ZeroRoot" by (simp add: root_present_def)
    ultimately have "toLowerCase v \<noteq> toLowerCase ZeroRoot" by (simp add: toLowerCase_ZeroRoot)
    with v show ?thesis by (simp add: call_interopRoots_def root_of_def)
  next
    case False
    from Suc.IH show ?thesis unfolding root_loop_retry[OF False] .
  qed
qed

text \<open>
  Claim C9. A rejected read, the zero address and the 32-byte zero digest all make the
  root waiter sleep and try again. Hence, when \<open>expectedRoot\<close> is the zero digest, the
  waiter never succeeds (for roots spelled in lower case, as the contract binding renders
  a \<open>bytes32\<close>), and when the stored root stays zero it ends with the timeout error after
  all 600 attempts.
\<close>

theorem zero_root_is_never_available:
  "(interopRoots e c b (rootCalls w) \<in> {Throws m, Returns ZeroAddress, Returns ZeroRoot} \<longrightarrow>
      root_loop e c b expectedRoot (Suc retries) w =
      root_loop e c b expectedRoot retries (sleep POLL_INTERVAL (snd (call_interopRoots e c b w)))) \<and>
   ((\<forall>k v. interopRoots e c b k = Returns v \<longrightarrow> toLowerCase v = v) \<longrightarrow>
      fst (waitUntilRootBecomesAvailable e c b ZeroRoot w) \<noteq> Inr ()) \<and>
   ((\<forall>k < DEFAULT_TIMEOUT div POLL_INTERVAL.
       interopRoots e c b (rootCalls w + k) = Returns ZeroRoot) \<longrightarrow>
      fst (waitUntilRootBecomesAvailable e c b ZeroRoot w) =
        Inl (Error ''Interop root did not become available in time'') \<and>
      rootCalls (snd (waitUntilRootBecomesAvailable e c b ZeroRoot w)) =
        rootCalls w + DEFAULT_TIMEOUT div POLL_INTERVAL)"
proof (intro conjI impI)
  assume "interopRoots e c b (rootCalls w) \<in> {Throws m, Returns ZeroAddress, Returns ZeroRoot}"
  then have "\<not> root_present (root_of (interopRoots e c b (rootCalls w)))"
    by (auto simp: root_of_def root_present_simps)
  then show "root_loop e c b expectedRoot (Suc retries) w =
      root_loop e c b expectedRoot retries (sleep POLL_INTERVAL (snd (call_interopRoots e c b w)))"
    by (rule root_loop_retry)
next
  assume "\<forall>k v. interopRoots e c b k = Returns v \<longrightarrow> toLowerCase v = v"
  then show "fst (waitUntilRootBecomesAvailable e c b ZeroRoot w) \<noteq> Inr ()"
    unfolding waitUntilRootBecomesAvailable_def
    by (rule root_loop_zero_expected_never_succeeds)
next
  assume "\<forall>k < DEFAULT_TIMEOUT div POLL_INTERVAL.
       interopRoots e c b (rootCalls w + k) = Returns ZeroRoot"
  then have a: "\<forall>k < DEFAULT_TIMEOUT div POLL_INTERVAL.
       \<not> root_present (root_of (interopRoots e c b (rootCalls w + k)))"
    by (simp add: root_of_def root_present_simps)
  show "fst (waitUntilRootBecomesAvailable e c b ZeroRoot w) =
        Inl (Error ''Interop root did not become available in time'')"
    and "rootCalls (snd (waitUntilRootBecomesAvailable e c b ZeroRoot w)) =
        rootCalls w + DEFAULT_TIMEOUT div POLL_INTERVAL"
    unfolding waitUntilRootBecomesAvailable_def root_loop_timeout[OF a]
    by (simp_all add: root_polled_def)
qed

theorem zero_root_is_never_available_witness:
  "fst (waitUntilRootBecomesAvailable env_idle 270 7 ZeroRoot world0) =
     Inl (Error ''Interop root did not become available in time'') \<and>
   rootCalls (snd (waitUntilRootBecomesAvailable env_idle 270 7 ZeroRoot world0)) = 600 \<and>
   fst (waitUntilRootBecomesAvailable env_idle 270 7 ZeroRoot world0) \<noteq> Inr () \<and>
   root_loop env_idle 270 7 ZeroRoot (Suc 1) world0 =
     root_loop env_idle 270 7 ZeroRoot 1
       (sleep POLL_INTERVAL (snd (call_interopRoots env_idle 270 7 world0)))"
proof -
  have one: "interopRoots env_idle 270 7 (rootCalls world0)
               \<in> {Throws [], Returns ZeroAddress, Returns ZeroRoot}"
    by (simp add: env_idle_def)
  have low: "\<forall>k v. interopRoots env_idle 270 7 k = Returns v \<longrightarrow> toLowerCase v = v"
    by (simp add: env_idle_def toLowerCase_ZeroRoot)
  have zero: "\<forall>k < DEFAULT_TIMEOUT div POLL_INTERVAL.
       interopRoots env_idle 270 7 (rootCalls world0 + k) = Returns ZeroRoot"
    by (simp add: env_idle_def)
  from zero_root_is_never_available[of env_idle 270 7 world0 "[]" ZeroRoot 1] one low zero
  show ?thesis by (simp add: budget world0_def)
qed

section \<open>The proof polling loop\<close>

lemma proof_polled_0: "proof_polled e t 0 w = w"
  by (simp add: proof_polled_def)

lemma proof_polled_Suc:
  "proof_polled e t k (sleep (pollingInterval e) (snd (call_getLogProof e t 0 w))) =
   proof_polled e t (Suc k) w"
  by (simp add: proof_polled_def sleep_def emit_def call_getLogProof_def sum_shift
      del: sum.lessThan_Suc)

lemma proof_loop_retry:
  assumes "getLogProof e t 0 (proofCalls w) = Returns None"
  shows "proof_loop e t w =
         proof_loop e t (sleep (pollingInterval e) (snd (call_getLogProof e t 0 w)))"
  using assms by (subst proof_loop.simps) (simp add: call_getLogProof_def)

lemma proof_loop_skip:
  "\<forall>i<k. getLogProof e t 0 (proofCalls w + i) = Returns None \<Longrightarrow>
   proof_loop e t w = proof_loop e t (proof_polled e t k w)"
proof (induction k arbitrary: w)
  case 0
  show ?case by (simp add: proof_polled_0)
next
  case (Suc k)
  let ?w1 = "sleep (pollingInterval e) (snd (call_getLogProof e t 0 w))"
  from Suc.prems have first: "getLogProof e t 0 (proofCalls w) = Returns None"
    by (metis add.right_neutral zero_less_Suc)
  have pc: "proofCalls ?w1 = Suc (proofCalls w)"
    by (simp add: sleep_def emit_def call_getLogProof_def)
  have rest: "\<forall>i<k. getLogProof e t 0 (proofCalls ?w1 + i) = Returns None"
    using Suc.prems pc by (metis Suc_less_eq add_Suc_shift)
  have "proof_loop e t w = proof_loop e t ?w1" by (rule proof_loop_retry[OF first])
  also have "\<dots> = proof_loop e t (proof_polled e t k ?w1)" by (rule Suc.IH[OF rest])
  finally show ?case by (simp add: proof_polled_Suc)
qed

lemma proof_loop_stop:
  assumes "getLogProof e t 0 (proofCalls w) \<noteq> Returns None"
  shows "proof_loop e t w =
         Some (case getLogProof e t 0 (proofCalls w) of
                 Throws m \<Rightarrow> Inl (Error m) | Returns p \<Rightarrow> Inr (),
               snd (call_getLogProof e t 0 w))"
  using assms
  by (subst proof_loop.simps) (simp add: call_getLogProof_def split: fetch.splits)

lemma proof_loop_hit:
  assumes "\<forall>i<k. getLogProof e t 0 (proofCalls w + i) = Returns None"
      and "getLogProof e t 0 (proofCalls w + k) \<noteq> Returns None"
  shows "proof_loop e t w =
         Some (case getLogProof e t 0 (proofCalls w + k) of
                 Throws m \<Rightarrow> Inl (Error m) | Returns p \<Rightarrow> Inr (),
               snd (call_getLogProof e t 0 (proof_polled e t k w)))"
proof -
  have pc: "proofCalls (proof_polled e t k w) = proofCalls w + k"
    by (simp add: proof_polled_def)
  show ?thesis
    unfolding proof_loop_skip[OF assms(1)]
    using proof_loop_stop[of e t "proof_polled e t k w"] assms(2)
    by (simp add: pc)
qed

lemma proof_loop_returns:
  "proof_loop e t w = Some y \<Longrightarrow> \<exists>k. getLogProof e t 0 (proofCalls w + k) \<noteq> Returns None"
proof (induction rule: proof_loop.raw_induct[rotated 1, consumes 1, case_names step])
  case (step loop e t w y)
  note 1 = step
  show ?case
  proof (cases "getLogProof e t 0 (proofCalls w) = Returns None")
    case True
    let ?w1 = "sleep (pollingInterval e) (snd (call_getLogProof e t 0 w))"
    have pc: "proofCalls ?w1 = Suc (proofCalls w)"
      by (simp add: sleep_def emit_def call_getLogProof_def)
    from True 1(2) have "loop e t ?w1 = Some y"
      by (simp add: call_getLogProof_def)
    from 1(1)[OF this] obtain k where "getLogProof e t 0 (proofCalls ?w1 + k) \<noteq> Returns None"
      by blast
    then have "getLogProof e t 0 (proofCalls w + Suc k) \<noteq> Returns None" by (simp add: pc)
    then show ?thesis by blast
  next
    case False
    then have "getLogProof e t 0 (proofCalls w + 0) \<noteq> Returns None" by simp
    then show ?thesis by blast
  qed
qed

lemma proof_loop_diverges:
  assumes "\<forall>k. getLogProof e t 0 (proofCalls w + k) = Returns None"
  shows "proof_loop e t w = None"
proof (cases "proof_loop e t w")
  case None
  then show ?thesis .
next
  case (Some y)
  from proof_loop_returns[OF this] assms show ?thesis by blast
qed

lemma finalized_loop_keeps_proofCalls:
  "proofCalls (snd (finalized_loop e n r w)) = proofCalls w"
proof (induction r arbitrary: w)
  case 0
  show ?case by simp
next
  case (Suc r)
  show ?case
    by (simp add: call_getBlock_def Suc.IH) (simp add: sleep_def emit_def)
qed

lemma waitFor_unfold:
  "waitForL2ToL1LogProof e n t w =
     (case waitUntilBlockFinalized e n w of
        (Inl err, w1) \<Rightarrow> Some (Inl err, w1)
      | (Inr u, w1) \<Rightarrow> proof_loop e t w1)"
  by (simp add: waitForL2ToL1LogProof_def bind_io_def total_io_def split: prod.splits sum.splits)

lemma waitUntilBlockFinalized_keeps_proofCalls:
  "proofCalls (snd (waitUntilBlockFinalized e n w)) = proofCalls w"
  by (simp add: waitUntilBlockFinalized_def finalized_loop_keeps_proofCalls)

lemma proof_hit_fields:
  "proofCalls (snd (call_getLogProof e t 0 (proof_polled e t k w))) = proofCalls w + k + 1"
  "clock (snd (call_getLogProof e t 0 (proof_polled e t k w))) = clock w + k * pollingInterval e"
  "trace (snd (call_getLogProof e t 0 (proof_polled e t k w))) =
     trace w @ concat (replicate k [EvGetLogProof t 0, EvSleep (pollingInterval e)])
       @ [EvGetLogProof t 0]"
  by (simp_all add: call_getLogProof_def proof_polled_def emit_def)

text \<open>
  Claim C2 (as amended). Only the finality phase of \<^verbatim>\<open>waitForL2ToL1LogProof\<close> is
  bounded: when the block is not finalized within the 600 attempts, the operation ends with
  that timeout error. Once finality has been seen, the proof query is polled without any
  bound: the operation returns right after the first query that answers with a proof
  (after \<open>k + 1\<close> queries and \<open>k\<close> sleeps of the provider's polling interval), and when
  the query keeps answering "absent" the operation never returns: there is no timeout
  error for the proof.
\<close>

theorem proof_wait_has_no_timeout:
  "(fst (waitUntilBlockFinalized e blockNum w) = Inl err \<longrightarrow>
      waitForL2ToL1LogProof e blockNum txHash w =
        Some (Inl err, snd (waitUntilBlockFinalized e blockNum w))) \<and>
   (waitUntilBlockFinalized e blockNum w = (Inr (), w1) \<and>
    (\<forall>i<k. getLogProof e txHash 0 (proofCalls w + i) = Returns None) \<and>
    getLogProof e txHash 0 (proofCalls w + k) = Returns (Some p) \<longrightarrow>
      (\<exists>w'. waitForL2ToL1LogProof e blockNum txHash w = Some (Inr (), w') \<and>
            proofCalls w' = proofCalls w + k + 1 \<and>
            clock w' = clock w1 + k * pollingInterval e \<and>
            trace w' = trace w1 @
              concat (replicate k [EvGetLogProof txHash 0, EvSleep (pollingInterval e)]) @
              [EvGetLogProof txHash 0])) \<and>
   (waitUntilBlockFinalized e blockNum w = (Inr (), w1) \<and>
    (\<forall>i. getLogProof e txHash 0 (proofCalls w + i) = Returns None) \<longrightarrow>
      waitForL2ToL1LogProof e blockNum txHash w = None)"
proof (intro conjI impI)
  assume "fst (waitUntilBlockFinalized e blockNum w) = Inl err"
  then show "waitForL2ToL1LogProof e blockNum txHash w =
        Some (Inl err, snd (waitUntilBlockFinalized e blockNum w))"
    by (cases "waitUntilBlockFinalized e blockNum w") (simp add: waitFor_unfold)
next
  assume a: "waitUntilBlockFinalized e blockNum w = (Inr (), w1) \<and>
    (\<forall>i<k. getLogProof e txHash 0 (proofCalls w + i) = Returns None) \<and>
    getLogProof e txHash 0 (proofCalls w + k) = Returns (Some p)"
  then have pc: "proofCalls w1 = proofCalls w"
    using waitUntilBlockFinalized_keeps_proofCalls[of e blockNum w] by simp
  from a have eq: "waitForL2ToL1LogProof e blockNum txHash w = proof_loop e txHash w1"
    by (simp add: waitFor_unfold)
  have "proof_loop e txHash w1 =
          Some (Inr (), snd (call_getLogProof e txHash 0 (proof_polled e txHash k w1)))"
    using proof_loop_hit[of k e txHash w1] a by (simp add: pc)
  then show "\<exists>w'. waitForL2ToL1LogProof e blockNum txHash w = Some (Inr (), w') \<and>
            proofCalls w' = proofCalls w + k + 1 \<and>
            clock w' = clock w1 + k * pollingInterval e \<and>
            trace w' = trace w1 @
              concat (replicate k [EvGetLogProof txHash 0, EvSleep (pollingInterval e)]) @
              [EvGetLogProof txHash 0]"
    by (simp add: eq proof_hit_fields pc)
next
  assume a: "waitUntilBlockFinalized e blockNum w = (Inr (), w1) \<and>
    (\<forall>i. getLogProof e txHash 0 (proofCalls w + i) = Returns None)"
  then have pc: "proofCalls w1 = proofCalls w"
    using waitUntilBlockFinalized_keeps_proofCalls[of e blockNum w] by simp
  from a have eq: "waitForL2ToL1LogProof e blockNum txHash w = proof_loop e txHash w1"
    by (simp add: waitFor_unfold)
  show "waitForL2ToL1LogProof e blockNum txHash w = None"
    unfolding eq using a by (intro proof_loop_diverges) (simp add: pc)
qed

lemma env_no_proof_final:
  "waitUntilBlockFinalized env_no_proof 5 world0 = (Inr (), snd (call_getBlock env_no_proof world0))"
proof -
  have "(0::nat) < DEFAULT_TIMEOUT div POLL_INTERVAL" by (simp add: budget)
  moreover have "5 \<le> executedBlock (getBlock env_no_proof (blockCalls world0 + 0))"
    by (simp add: env_no_proof_def executedBlock_def)
  ultimately show ?thesis
    using finalized_loop_hit[of 0 "DEFAULT_TIMEOUT div POLL_INTERVAL" env_no_proof world0 5]
    by (simp add: waitUntilBlockFinalized_def block_polled_0)
qed

theorem proof_wait_has_no_timeout_witness:
  "waitForL2ToL1LogProof env_no_proof 5 ''0xabc1'' world0 = None \<and>
   (\<exists>w'. waitForL2ToL1LogProof env_ready 5 ''0xabc1'' world0 = Some (Inr (), w') \<and>
         proofCalls w' = 4) \<and>
   waitForL2ToL1LogProof env_idle 5 ''0xabc1'' world0 =
     Some (Inl (Error ''Block was not finalized in time''),
           snd (waitUntilBlockFinalized env_idle 5 world0))"
proof -
  have none: "\<forall>i. getLogProof env_no_proof ''0xabc1'' 0 (proofCalls world0 + i) = Returns None"
    by (simp add: env_no_proof_def)
  have 1: "waitForL2ToL1LogProof env_no_proof 5 ''0xabc1'' world0 = None"
    using proof_wait_has_no_timeout[where e=env_no_proof and blockNum=5 and w=world0
        and txHash="''0xabc1''" and ?w1.0="snd (call_getBlock env_no_proof world0)"]
      env_no_proof_final none by simp
  have fin: "fst (waitUntilBlockFinalized env_ready 5 world0) = Inr ()"
    using finalized_loop_success[of 2 "DEFAULT_TIMEOUT div POLL_INTERVAL" 5 env_ready world0]
    by (simp add: budget env_ready_def executedBlock_def world0_def waitUntilBlockFinalized_def)
  then obtain w1 where w1: "waitUntilBlockFinalized env_ready 5 world0 = (Inr (), w1)"
    by (cases "waitUntilBlockFinalized env_ready 5 world0") simp
  have abs: "\<forall>i<3. getLogProof env_ready ''0xabc1'' 0 (proofCalls world0 + i) = Returns None"
    by (simp add: env_ready_def world0_def)
  have hit: "getLogProof env_ready ''0xabc1'' 0 (proofCalls world0 + 3) = Returns (Some proof_ex)"
    by (simp add: env_ready_def world0_def)
  have 2: "\<exists>w'. waitForL2ToL1LogProof env_ready 5 ''0xabc1'' world0 = Some (Inr (), w') \<and>
         proofCalls w' = 4"
    using proof_wait_has_no_timeout[where e=env_ready and blockNum=5 and w=world0
        and txHash="''0xabc1''" and ?w1.0=w1 and k=3 and p=proof_ex] w1 abs hit
    by (auto simp: world0_def)
  have idle: "\<forall>k < DEFAULT_TIMEOUT div POLL_INTERVAL.
             executedBlock (getBlock env_idle (blockCalls world0 + k)) < 5"
    by (simp add: env_idle_def executedBlock_def)
  have "fst (waitUntilBlockFinalized env_idle 5 world0) = Inl (Error ''Block was not finalized in time'')"
    using finalized_loop_timeout[OF idle] by (simp add: waitUntilBlockFinalized_def)
  then have 3: "waitForL2ToL1LogProof env_idle 5 ''0xabc1'' world0 =
     Some (Inl (Error ''Block was not finalized in time''),
           snd (waitUntilBlockFinalized env_idle 5 world0))"
    using proof_wait_has_no_timeout[where e=env_idle and blockNum=5 and w=world0
        and txHash="''0xabc1''" and err="Error ''Block was not finalized in time''"]
    by simp
  from 1 2 3 show ?thesis by simp
qed

text \<open>
  Claim C2 as stated fails: on endpoints whose block is final and whose proof query always
  answers "absent", the operation returns neither a proof nor a timeout error.
\<close>

theorem proof_wait_timeout_counterexample:
  "waitForL2ToL1LogProof env_no_proof 5 ''0xabc1'' world0 = None"
proof -
  have "proof_loop env_no_proof ''0xabc1'' (snd (call_getBlock env_no_proof world0)) = None"
    by (rule proof_loop_diverges) (simp add: env_no_proof_def)
  then show ?thesis by (simp add: waitFor_unfold env_no_proof_final)
qed

section \<open>Rejected reads\<close>

text \<open>
  Claim C5 (as amended). For the finality waiter and the root-availability waiter: if the
  first \<open>n\<close> reads are rejected and read \<open>n + 1\<close> (still within the budget of 600) brings
  what the waiter waits for, the waiter succeeds: the finality waiter when that read shows
  a finalized height of at least the requested block, the root waiter when it shows a
  non-zero root equal to \<open>expectedRoot\<close> without regard to letter case (after exactly
  \<open>n + 1\<close> reads; the finality waiter too when the requested block is positive). A rejected
  read never ends these two waiters with an error: the finality waiter fails only with its
  timeout after all 600 attempts, and the root waiter only so or with the mismatch error
  for a value that a read did return. The proof polling of \<^verbatim>\<open>waitForL2ToL1LogProof\<close>
  has no such tolerance: its query is not inside a \<^verbatim>\<open>try\<close>, and the first rejected
  query ends the operation with that error, whatever later queries would answer.
\<close>

theorem transient_errors_tolerated:
  "(n < DEFAULT_TIMEOUT div POLL_INTERVAL \<and>
    (\<forall>i<n. \<exists>m. getBlock e (blockCalls w + i) = Throws m) \<and>
    blockNum \<le> executedBlock (getBlock e (blockCalls w + n)) \<longrightarrow>
      fst (waitUntilBlockFinalized e blockNum w) = Inr () \<and>
      blockCalls (snd (waitUntilBlockFinalized e blockNum w)) \<le> blockCalls w + n + 1 \<and>
      (0 < blockNum \<longrightarrow>
         blockCalls (snd (waitUntilBlockFinalized e blockNum w)) = blockCalls w + n + 1)) \<and>
   (n < DEFAULT_TIMEOUT div POLL_INTERVAL \<and>
    (\<forall>i<n. \<exists>m. interopRoots e c b (rootCalls w + i) = Throws m) \<and>
    interopRoots e c b (rootCalls w + n) = Returns v \<and> root_present (Some v) \<and>
    equal_ignoring_case v expectedRoot \<longrightarrow>
      fst (waitUntilRootBecomesAvailable e c b expectedRoot w) = Inr () \<and>
      rootCalls (snd (waitUntilRootBecomesAvailable e c b expectedRoot w)) = rootCalls w + n + 1) \<and>
   (fst (waitUntilBlockFinalized e blockNum w) = Inl err \<longrightarrow>
      err = Error ''Block was not finalized in time'' \<and>
      blockCalls (snd (waitUntilBlockFinalized e blockNum w)) =
        blockCalls w + DEFAULT_TIMEOUT div POLL_INTERVAL) \<and>
   (fst (waitUntilRootBecomesAvailable e c b expectedRoot w) = Inl err \<longrightarrow>
      (err = Error ''Interop root did not become available in time'' \<and>
       rootCalls (snd (waitUntilRootBecomesAvailable e c b expectedRoot w)) =
         rootCalls w + DEFAULT_TIMEOUT div POLL_INTERVAL) \<or>
      (\<exists>j < DEFAULT_TIMEOUT div POLL_INTERVAL. \<exists>v'.
         interopRoots e c b (rootCalls w + j) = Returns v' \<and> root_present (Some v') \<and>
         \<not> equal_ignoring_case v' expectedRoot \<and>
         err = Error (''Interop root mismatch: expected '' @ expectedRoot @ '', got '' @ v'))) \<and>
   (waitUntilBlockFinalized e blockNum w = (Inr (), w1) \<and>
    (\<forall>i<k. getLogProof e txHash 0 (proofCalls w + i) = Returns None) \<and>
    getLogProof e txHash 0 (proofCalls w + k) = Throws m \<longrightarrow>
      (\<exists>w'. waitForL2ToL1LogProof e blockNum txHash w = Some (Inl (Error m), w') \<and>
            proofCalls w' = proofCalls w + k + 1))"
proof (intro conjI impI)
  assume a: "n < DEFAULT_TIMEOUT div POLL_INTERVAL \<and>
    (\<forall>i<n. \<exists>m. getBlock e (blockCalls w + i) = Throws m) \<and>
    blockNum \<le> executedBlock (getBlock e (blockCalls w + n))"
  then show "fst (waitUntilBlockFinalized e blockNum w) = Inr ()"
    and "blockCalls (snd (waitUntilBlockFinalized e blockNum w)) \<le> blockCalls w + n + 1"
    using finalized_loop_success[of n "DEFAULT_TIMEOUT div POLL_INTERVAL" blockNum e w]
    by (simp_all add: waitUntilBlockFinalized_def)
  assume pos: "0 < blockNum"
  from a have "\<forall>i<n. executedBlock (getBlock e (blockCalls w + i)) < blockNum"
    using pos by (auto simp: executedBlock_Throws)
  with a show "blockCalls (snd (waitUntilBlockFinalized e blockNum w)) = blockCalls w + n + 1"
    using finalized_loop_hit[of n "DEFAULT_TIMEOUT div POLL_INTERVAL" e w blockNum]
    by (simp add: waitUntilBlockFinalized_def calls_after_block_hit)
next
  assume a: "n < DEFAULT_TIMEOUT div POLL_INTERVAL \<and>
    (\<forall>i<n. \<exists>m. interopRoots e c b (rootCalls w + i) = Throws m) \<and>
    interopRoots e c b (rootCalls w + n) = Returns v \<and> root_present (Some v) \<and>
    equal_ignoring_case v expectedRoot"
  then have abs: "\<forall>i<n. \<not> root_present (root_of (interopRoots e c b (rootCalls w + i)))"
    by (auto simp: root_of_Throws root_present_simps)
  from a have hit: "root_loop e c b expectedRoot (DEFAULT_TIMEOUT div POLL_INTERVAL) w =
      (Inr (), snd (call_interopRoots e c b (root_polled e c b n w)))"
    using root_loop_hit[of n "DEFAULT_TIMEOUT div POLL_INTERVAL" e c b w v expectedRoot] abs
    by (simp add: toLowerCase_eq_iff)
  show "fst (waitUntilRootBecomesAvailable e c b expectedRoot w) = Inr ()"
    by (simp add: waitUntilRootBecomesAvailable_def hit)
  show "rootCalls (snd (waitUntilRootBecomesAvailable e c b expectedRoot w)) = rootCalls w + n + 1"
    by (simp add: waitUntilRootBecomesAvailable_def hit root_hit_fields)
next
  assume "fst (waitUntilBlockFinalized e blockNum w) = Inl err"
  then show "err = Error ''Block was not finalized in time''"
    and "blockCalls (snd (waitUntilBlockFinalized e blockNum w)) =
        blockCalls w + DEFAULT_TIMEOUT div POLL_INTERVAL"
    using finalized_loop_error[of e blockNum "DEFAULT_TIMEOUT div POLL_INTERVAL" w err]
    by (simp_all add: waitUntilBlockFinalized_def)
next
  assume "fst (waitUntilRootBecomesAvailable e c b expectedRoot w) = Inl err"
  then show "(err = Error ''Interop root did not become available in time'' \<and>
       rootCalls (snd (waitUntilRootBecomesAvailable e c b expectedRoot w)) =
         rootCalls w + DEFAULT_TIMEOUT div POLL_INTERVAL) \<or>
      (\<exists>j < DEFAULT_TIMEOUT div POLL_INTERVAL. \<exists>v'.
         interopRoots e c b (rootCalls w + j) = Returns v' \<and> root_present (Some v') \<and>
         \<not> equal_ignoring_case v' expectedRoot \<and>
         err = Error (''Interop root mismatch: expected '' @ expectedRoot @ '', got '' @ v'))"
    using root_loop_error[of e c b expectedRoot "DEFAULT_TIMEOUT div POLL_INTERVAL" w err]
    by (simp add: waitUntilRootBecomesAvailable_def toLowerCase_eq_iff mismatch_message_def)
next
  assume a: "waitUntilBlockFinalized e blockNum w = (Inr (), w1) \<and>
    (\<forall>i<k. getLogProof e txHash 0 (proofCalls w + i) = Returns None) \<and>
    getLogProof e txHash 0 (proofCalls w + k) = Throws m"
  then have pc: "proofCalls w1 = proofCalls w"
    using waitUntilBlockFinalized_keeps_proofCalls[of e blockNum w] by simp
  from a have eq: "waitForL2ToL1LogProof e blockNum txHash w = proof_loop e txHash w1"
    by (simp add: waitFor_unfold)
  have "proof_loop e txHash w1 =
          Some (Inl (Error m), snd (call_getLogProof e txHash 0 (proof_polled e txHash k w1)))"
    using proof_loop_hit[of k e txHash w1] a by (simp add: pc)
  then show "\<exists>w'. waitForL2ToL1LogProof e blockNum txHash w = Some (Inl (Error m), w') \<and>
            proofCalls w' = proofCalls w + k + 1"
    by (simp add: eq proof_hit_fields pc)
qed

lemma env_flaky_fields:
  "getBlock env_flaky k = Returns (Some \<lparr>number = 5\<rparr>)"
  "getLogProof env_flaky h i 0 = Throws ''ECONNRESET''"
  "getLogProof env_flaky h i (Suc k) = Returns (Some proof_ex)"
  by (simp_all add: env_flaky_def)

lemma flaky_final:
  "waitUntilBlockFinalized env_flaky 5 w = (Inr (), snd (call_getBlock env_flaky w))"
proof -
  have "(0::nat) < DEFAULT_TIMEOUT div POLL_INTERVAL" by (simp add: budget)
  moreover have "5 \<le> executedBlock (getBlock env_flaky (blockCalls w + 0))"
    by (simp add: env_flaky_fields executedBlock_def)
  ultimately show ?thesis
    using finalized_loop_hit[of 0 "DEFAULT_TIMEOUT div POLL_INTERVAL" env_flaky w 5]
    by (simp add: waitUntilBlockFinalized_def block_polled_0)
qed

theorem transient_errors_tolerated_witness:
  "fst (waitUntilBlockFinalized env_ready 5 world0) = Inr () \<and>
   blockCalls (snd (waitUntilBlockFinalized env_ready 5 world0)) = 3 \<and>
   fst (waitUntilRootBecomesAvailable
          (env_ready\<lparr>interopRoots := (\<lambda>c b k. if k < 2 then Throws ''ECONNRESET'' else Returns root_ex)\<rparr>)
          270 7 root_ex_upper world0) = Inr () \<and>
   fst (waitUntilBlockFinalized env_idle 5 world0) = Inl (Error ''Block was not finalized in time'') \<and>
   (\<exists>w'. waitForL2ToL1LogProof env_flaky 5 ''0xabc1'' world0 =
           Some (Inl (Error ''ECONNRESET''), w') \<and> proofCalls w' = 1)"
proof -
  let ?e = "env_ready\<lparr>interopRoots := (\<lambda>c b k. if k < 2 then Throws ''ECONNRESET'' else Returns root_ex)\<rparr>"
  have n: "(2::nat) < DEFAULT_TIMEOUT div POLL_INTERVAL" by (simp add: budget)
  have b1: "\<forall>i<2. \<exists>m. getBlock env_ready (blockCalls world0 + i) = Throws m"
    by (simp add: env_ready_def world0_def)
  have b2: "5 \<le> executedBlock (getBlock env_ready (blockCalls world0 + 2))"
    by (simp add: env_ready_def world0_def executedBlock_def)
  have r1: "\<forall>i<2. \<exists>m. interopRoots ?e 270 7 (rootCalls world0 + i) = Throws m"
    by (simp add: world0_def)
  have r2: "interopRoots ?e 270 7 (rootCalls world0 + 2) = Returns root_ex"
    by (simp add: world0_def)
  have "fst (waitUntilBlockFinalized env_ready 5 world0) = Inr () \<and>
        blockCalls (snd (waitUntilBlockFinalized env_ready 5 world0)) = 3"
    using transient_errors_tolerated[where n=2 and e=env_ready and w=world0 and blockNum=5] n b1 b2
    by (simp add: world0_def)
  moreover have "fst (waitUntilRootBecomesAvailable ?e 270 7 root_ex_upper world0) = Inr ()"
    using transient_errors_tolerated[where n=2 and e="?e" and w=world0 and c=270 and b=7
        and v=root_ex and expectedRoot=root_ex_upper]
      n r1 r2 root_ex_present root_ex_upper_same
    by simp
  moreover have "fst (waitUntilBlockFinalized env_idle 5 world0) = Inl (Error ''Block was not finalized in time'')"
  proof (cases "fst (waitUntilBlockFinalized env_idle 5 world0)")
    case (Inl err)
    with transient_errors_tolerated[where e=env_idle and w=world0 and blockNum=5 and err=err]
    show ?thesis by simp
  next
    case (Inr u)
    have "\<forall>k < DEFAULT_TIMEOUT div POLL_INTERVAL.
             executedBlock (getBlock env_idle (blockCalls world0 + k)) < 5"
      by (simp add: env_idle_def executedBlock_def)
    from finalized_loop_timeout[OF this] Inr show ?thesis
      by (simp add: waitUntilBlockFinalized_def)
  qed
  moreover have "\<exists>w'. waitForL2ToL1LogProof env_flaky 5 ''0xabc1'' world0 =
           Some (Inl (Error ''ECONNRESET''), w') \<and> proofCalls w' = 1"
    using transient_errors_tolerated[where e=env_flaky and w=world0 and blockNum=5
        and ?w1.0="snd (call_getBlock env_flaky world0)" and k=0 and txHash="''0xabc1''"
        and m="''ECONNRESET''"]
      flaky_final[of world0]
    by (simp add: env_flaky_fields world0_def)
  ultimately show ?thesis by simp
qed

text \<open>
  Claim C5 as stated fails for the proof polling: with a final block, a first proof query
  that is rejected and a second one that would answer with the proof, the operation ends
  with the error of the first query.
\<close>

theorem rejected_proof_query_counterexample:
  "map_option fst (waitForL2ToL1LogProof env_flaky 5 ''0xabc1'' world0) =
     Some (Inl (Error ''ECONNRESET'')) \<and>
   getLogProof env_flaky ''0xabc1'' 0 1 = Returns (Some proof_ex)"
proof -
  have "proof_loop env_flaky ''0xabc1'' (snd (call_getBlock env_flaky world0)) =
      Some (Inl (Error ''ECONNRESET''),
            snd (call_getLogProof env_flaky ''0xabc1'' 0 (snd (call_getBlock env_flaky world0))))"
    using proof_loop_stop[of env_flaky "''0xabc1''" "snd (call_getBlock env_flaky world0)"]
    by (simp add: env_flaky_fields call_getBlock_def emit_def world0_def)
  then have "map_option fst (waitForL2ToL1LogProof env_flaky 5 ''0xabc1'' world0) =
     Some (Inl (Error ''ECONNRESET''))"
    by (simp add: waitFor_unfold flaky_final)
  moreover have "getLogProof env_flaky ''0xabc1'' 0 1 = Returns (Some proof_ex)"
    by (simp add: env_flaky_def)
  ultimately show ?thesis by simp
qed

section \<open>Calls made by the relay flow\<close>

lemma emits_onlyI:
  "(\<And>w r w'. m w = Some (r, w') \<Longrightarrow> \<exists>evs. trace w' = trace w @ evs \<and> list_all P evs) \<Longrightarrow>
   emits_only P m"
  by (simp add: emits_only_def)

lemma emits_onlyD:
  "emits_only P m \<Longrightarrow> m w = Some (r, w') \<Longrightarrow> \<exists>evs. trace w' = trace w @ evs \<and> list_all P evs"
  by (simp add: emits_only_def)

lemma emits_only_return: "emits_only P (return_io x)"
  by (simp add: emits_only_def return_io_def)

lemma emits_only_throw: "emits_only P (throw_io m)"
  by (simp add: emits_only_def throw_io_def)

lemma emits_only_bind:
  assumes "emits_only P m" and "\<And>x. emits_only P (f x)"
  shows "emits_only P (bind_io m f)"
proof (rule emits_onlyI)
  fix w r w'
  assume b: "bind_io m f w = Some (r, w')"
  then obtain r1 w1 where m: "m w = Some (r1, w1)"
    by (cases "m w") (auto simp: bind_io_def)
  from emits_onlyD[OF assms(1) m] obtain evs1 where
    e1: "trace w1 = trace w @ evs1" "list_all P evs1" by blast
  show "\<exists>evs. trace w' = trace w @ evs \<and> list_all P evs"
  proof (cases r1)
    case (Inl err)
    with b m have "w' = w1" by (simp add: bind_io_def)
    with e1 show ?thesis by blast
  next
    case (Inr x)
    with b m have "f x w1 = Some (r, w')" by (simp add: bind_io_def)
    from emits_onlyD[OF assms(2) this] obtain evs2 where
      "trace w' = trace w1 @ evs2" "list_all P evs2" by blast
    with e1 have "trace w' = trace w @ (evs1 @ evs2) \<and> list_all P (evs1 @ evs2)" by simp
    then show ?thesis by blast
  qed
qed

lemma emits_only_await:
  assumes "\<And>w. \<exists>ev. trace (snd (c w)) = trace w @ [ev] \<and> P ev"
  shows "emits_only P (await c)"
proof (rule emits_onlyI)
  fix w r w'
  assume a: "await c w = Some (r, w')"
  then have "w' = snd (c w)"
    by (cases "c w") (auto simp: await_def split: fetch.splits)
  moreover from assms[of w] obtain ev where "trace (snd (c w)) = trace w @ [ev]" "P ev"
    by blast
  ultimately have "trace w' = trace w @ [ev] \<and> list_all P [ev]" by simp
  then show "\<exists>evs. trace w' = trace w @ evs \<and> list_all P evs" by blast
qed

lemma emits_only_total:
  assumes "\<And>w. \<exists>evs. trace (snd (f w)) = trace w @ evs \<and> list_all P evs"
  shows "emits_only P (total_io f)"
proof (rule emits_onlyI)
  fix w r w'
  assume "total_io f w = Some (r, w')"
  then have "w' = snd (f w)" by (simp add: total_io_def)
  with assms[of w] show "\<exists>evs. trace w' = trace w @ evs \<and> list_all P evs" by simp
qed

lemma finalized_loop_trace:
  "\<exists>evs. trace (snd (finalized_loop e n r w)) = trace w @ evs \<and>
         list_all (\<lambda>ev. ev = EvGetBlock \<or> ev = EvSleep POLL_INTERVAL) evs"
proof (induction r arbitrary: w)
  case 0
  show ?case by simp
next
  case (Suc r)
  let ?w1 = "sleep POLL_INTERVAL (snd (call_getBlock e w))"
  have t1: "trace ?w1 = trace w @ [EvGetBlock, EvSleep POLL_INTERVAL]"
    by (simp add: sleep_def emit_def call_getBlock_def)
  show ?case
  proof (cases "n \<le> executedBlock (getBlock e (blockCalls w))")
    case True
    then have "trace (snd (finalized_loop e n (Suc r) w)) = trace w @ [EvGetBlock] \<and>
        list_all (\<lambda>ev. ev = EvGetBlock \<or> ev = EvSleep POLL_INTERVAL) [EvGetBlock]"
      by (simp add: call_getBlock_def emit_def)
    then show ?thesis by blast
  next
    case False
    then have eq: "finalized_loop e n (Suc r) w = finalized_loop e n r ?w1"
      by (simp add: call_getBlock_def)
    from Suc.IH[of ?w1] obtain evs where
      "trace (snd (finalized_loop e n r ?w1)) = trace ?w1 @ evs"
      "list_all (\<lambda>ev. ev = EvGetBlock \<or> ev = EvSleep POLL_INTERVAL) evs" by blast
    then have "trace (snd (finalized_loop e n (Suc r) w)) =
                 trace w @ ([EvGetBlock, EvSleep POLL_INTERVAL] @ evs) \<and>
               list_all (\<lambda>ev. ev = EvGetBlock \<or> ev = EvSleep POLL_INTERVAL)
                 ([EvGetBlock, EvSleep POLL_INTERVAL] @ evs)"
      unfolding eq by (simp add: t1)
    then show ?thesis by blast
  qed
qed

lemma root_loop_trace:
  "\<exists>evs. trace (snd (root_loop e c b x r w)) = trace w @ evs \<and>
         list_all (\<lambda>ev. ev = EvInteropRoots c b \<or> ev = EvSleep POLL_INTERVAL) evs"
proof (induction r arbitrary: w)
  case 0
  show ?case by simp
next
  case (Suc r)
  let ?w1 = "sleep POLL_INTERVAL (snd (call_interopRoots e c b w))"
  have t1: "trace ?w1 = trace w @ [EvInteropRoots c b, EvSleep POLL_INTERVAL]"
    by (simp add: sleep_def emit_def call_interopRoots_def)
  show ?case
  proof (cases "root_present (root_of (interopRoots e c b (rootCalls w)))")
    case True
    then have "trace (snd (root_loop e c b x (Suc r) w)) = trace w @ [EvInteropRoots c b] \<and>
        list_all (\<lambda>ev. ev = EvInteropRoots c b \<or> ev = EvSleep POLL_INTERVAL) [EvInteropRoots c b]"
      by (simp add: call_interopRoots_def emit_def Let_def)
    then show ?thesis by blast
  next
    case False
    note eq = root_loop_retry[OF False, of x r]
    from Suc.IH[of ?w1] obtain evs where
      "trace (snd (root_loop e c b x r ?w1)) = trace ?w1 @ evs"
      "list_all (\<lambda>ev. ev = EvInteropRoots c b \<or> ev = EvSleep POLL_INTERVAL) evs" by blast
    then have "trace (snd (root_loop e c b x (Suc r) w)) =
                 trace w @ ([EvInteropRoots c b, EvSleep POLL_INTERVAL] @ evs) \<and>
               list_all (\<lambda>ev. ev = EvInteropRoots c b \<or> ev = EvSleep POLL_INTERVAL)
                 ([EvInteropRoots c b, EvSleep POLL_INTERVAL] @ evs)"
      unfolding eq by (simp add: t1)
    then show ?thesis by blast
  qed
qed

lemma list_all_polls: "P a \<Longrightarrow> P b \<Longrightarrow> list_all P (concat (replicate k [a, b]))"
  by (induction k) simp_all

lemma proof_loop_first_answer:
  assumes "proof_loop e t w = Some y"
  shows "\<exists>k. (\<forall>i<k. getLogProof e t 0 (proofCalls w + i) = Returns None) \<and>
             getLogProof e t 0 (proofCalls w + k) \<noteq> Returns None \<and>
             y = (case getLogProof e t 0 (proofCalls w + k) of
                    Throws m \<Rightarrow> Inl (Error m) | Returns p \<Rightarrow> Inr (),
                  snd (call_getLogProof e t 0 (proof_polled e t k w)))"
proof -
  define k where "k = (LEAST j. getLogProof e t 0 (proofCalls w + j) \<noteq> Returns None)"
  from proof_loop_returns[OF assms] have hit: "getLogProof e t 0 (proofCalls w + k) \<noteq> Returns None"
    unfolding k_def by (rule LeastI_ex)
  have before: "\<forall>i<k. getLogProof e t 0 (proofCalls w + i) = Returns None"
    unfolding k_def using not_less_Least by blast
  from proof_loop_hit[OF before hit] assms before hit show ?thesis by auto
qed

lemma proof_loop_emits:
  "emits_only (\<lambda>ev. ev = EvGetLogProof t 0 \<or> ev = EvSleep (pollingInterval e)) (proof_loop e t)"
proof (rule emits_onlyI)
  fix w r w'
  assume "proof_loop e t w = Some (r, w')"
  from proof_loop_first_answer[OF this] obtain k where
    "w' = snd (call_getLogProof e t 0 (proof_polled e t k w))" by auto
  then have "trace w' = trace w @
      (concat (replicate k [EvGetLogProof t 0, EvSleep (pollingInterval e)]) @ [EvGetLogProof t 0])"
    by (simp add: proof_hit_fields)
  moreover have "list_all (\<lambda>ev. ev = EvGetLogProof t 0 \<or> ev = EvSleep (pollingInterval e))
      (concat (replicate k [EvGetLogProof t 0, EvSleep (pollingInterval e)]) @ [EvGetLogProof t 0])"
    by (simp add: list_all_polls)
  ultimately show "\<exists>evs. trace w' = trace w @ evs \<and>
      list_all (\<lambda>ev. ev = EvGetLogProof t 0 \<or> ev = EvSleep (pollingInterval e)) evs"
    by blast
qed

lemma emits_only_mono:
  assumes "emits_only P m" and "\<And>ev. P ev \<Longrightarrow> Q ev"
  shows "emits_only Q m"
  using assms unfolding emits_only_def by (metis (mono_tags, lifting) list.pred_mono_strong)

lemma index_zero_simps:
  "index_zero EvGetBlock" "index_zero (EvSleep n)" "index_zero (EvInteropRoots c b)"
  "index_zero EvGetNetwork" "index_zero EvSendMessage" "index_zero (EvExecuteBundle bs p)"
  "index_zero EvSendToL1" "index_zero (EvProveInclusion p)"
  "index_zero (EvGetLogProof h i) = (i = 0)"
  by (simp_all add: index_zero_def)

lemma call_traces:
  "trace (snd (call_getLogProof e t i w)) = trace w @ [EvGetLogProof t i]"
  "trace (snd (call_getNetwork e w)) = trace w @ [EvGetNetwork]"
  "trace (snd (call_sendMessage e w)) = trace w @ [EvSendMessage]"
  "trace (snd (call_executeBundle e bs p w)) = trace w @ [EvExecuteBundle bs p]"
  "trace (snd (call_sendToL1 e w)) = trace w @ [EvSendToL1]"
  "trace (snd (call_proveInclusion e p w)) = trace w @ [EvProveInclusion p]"
  by (simp_all add: call_getLogProof_def call_getNetwork_def call_sendMessage_def
      call_executeBundle_def call_sendToL1_def call_proveInclusion_def emit_def)

lemma waitUntilBlockFinalized_emits: "emits_only index_zero (total_io (waitUntilBlockFinalized e n))"
proof (rule emits_only_total)
  fix w
  from finalized_loop_trace[of e n "DEFAULT_TIMEOUT div POLL_INTERVAL" w] obtain evs where
    t: "trace (snd (waitUntilBlockFinalized e n w)) = trace w @ evs"
    and a: "list_all (\<lambda>ev. ev = EvGetBlock \<or> ev = EvSleep POLL_INTERVAL) evs"
    by (auto simp: waitUntilBlockFinalized_def)
  from a have "list_all index_zero evs"
    by (rule list.pred_mono_strong) (auto simp: index_zero_simps)
  with t show "\<exists>evs. trace (snd (waitUntilBlockFinalized e n w)) = trace w @ evs \<and>
      list_all index_zero evs" by blast
qed

lemma waitUntilRoot_emits:
  "emits_only index_zero (total_io (waitUntilRootBecomesAvailable e c b x))"
proof (rule emits_only_total)
  fix w
  from root_loop_trace[of e c b x "DEFAULT_TIMEOUT div POLL_INTERVAL" w] obtain evs where
    t: "trace (snd (waitUntilRootBecomesAvailable e c b x w)) = trace w @ evs"
    and a: "list_all (\<lambda>ev. ev = EvInteropRoots c b \<or> ev = EvSleep POLL_INTERVAL) evs"
    by (auto simp: waitUntilRootBecomesAvailable_def)
  from a have "list_all index_zero evs"
    by (rule list.pred_mono_strong) (auto simp: index_zero_simps)
  with t show "\<exists>evs. trace (snd (waitUntilRootBecomesAvailable e c b x w)) = trace w @ evs \<and>
      list_all index_zero evs" by blast
qed

lemma waitFor_emits: "emits_only index_zero (waitForL2ToL1LogProof e n t)"
  unfolding waitForL2ToL1LogProof_def
  by (intro emits_only_bind waitUntilBlockFinalized_emits
            emits_only_mono[OF proof_loop_emits]) (auto simp: index_zero_simps)

lemma select_emits: "emits_only P (select_l2ToL1Log r i)"
  by (simp add: select_l2ToL1Log_def emits_only_return emits_only_throw split: option.splits)

lemma after_proof_emits: "emits_only index_zero (after_proof e r bs)"
  unfolding after_proof_def Let_def
  by (intro emits_only_bind emits_only_await)
     (auto simp: call_traces index_zero_simps emits_only_throw
        intro!: emits_only_bind emits_only_await select_emits waitUntilRoot_emits
        split: option.splits)

lemma after_bundle_emits: "emits_only index_zero (after_bundle e r bs)"
  unfolding after_bundle_def by (intro emits_only_bind waitFor_emits after_proof_emits)

lemma main_emits: "emits_only index_zero (main e)"
  unfolding main_def
  by (intro emits_only_bind emits_only_await)
     (auto simp: call_traces index_zero_simps emits_only_throw after_bundle_emits
        split: option.splits fetch.splits)

lemma after_proof_js_emits: "emits_only index_zero (after_proof_js e r)"
  unfolding after_proof_js_def
  by (intro emits_only_bind emits_only_await)
     (auto simp: call_traces index_zero_simps emits_only_throw emits_only_return
        intro!: emits_only_bind emits_only_await waitUntilRoot_emits
        split: option.splits)

lemma main_js_emits: "emits_only index_zero (main_js e)"
  unfolding main_js_def
  by (intro emits_only_bind emits_only_await)
     (auto simp: call_traces index_zero_simps emits_only_throw
        intro!: emits_only_bind emits_only_await waitFor_emits after_proof_js_emits
        split: option.splits)


lemma finalized_loop_cong:
  "getBlock e' = getBlock e \<Longrightarrow> getBlock_ms e' = getBlock_ms e \<Longrightarrow>
   finalized_loop e' n r w = finalized_loop e n r w"
  by (induction r arbitrary: w) (simp_all add: call_getBlock_def)

lemma root_loop_cong:
  "interopRoots e' = interopRoots e \<Longrightarrow> interopRoots_ms e' = interopRoots_ms e \<Longrightarrow>
   root_loop e' c b x r w = root_loop e c b x r w"
  by (induction r arbitrary: w) (simp_all add: call_interopRoots_def Let_def)

lemma proof_loop_cong:
  assumes g: "\<forall>k. getLogProof e' t 0 k = getLogProof e t 0 k"
      and p: "pollingInterval e' = pollingInterval e"
      and ms: "getLogProof_ms e' = getLogProof_ms e"
  shows "proof_loop e' t w = proof_loop e t w"
proof (cases "\<exists>k. getLogProof e t 0 (proofCalls w + k) \<noteq> Returns None")
  case True
  define k where "k = (LEAST j. getLogProof e t 0 (proofCalls w + j) \<noteq> Returns None)"
  from True have hit: "getLogProof e t 0 (proofCalls w + k) \<noteq> Returns None"
    unfolding k_def by (rule LeastI_ex)
  have before: "\<forall>i<k. getLogProof e t 0 (proofCalls w + i) = Returns None"
    unfolding k_def using not_less_Least by blast
  have pp: "proof_polled e' t k w = proof_polled e t k w"
    by (simp add: proof_polled_def p ms)
  have "proof_loop e' t w =
         Some (case getLogProof e' t 0 (proofCalls w + k) of
                 Throws m \<Rightarrow> Inl (Error m) | Returns p \<Rightarrow> Inr (),
               snd (call_getLogProof e' t 0 (proof_polled e' t k w)))"
    using before hit g by (intro proof_loop_hit) simp_all
  also have "\<dots> = Some (case getLogProof e t 0 (proofCalls w + k) of
                 Throws m \<Rightarrow> Inl (Error m) | Returns p \<Rightarrow> Inr (),
               snd (call_getLogProof e t 0 (proof_polled e t k w)))"
    by (simp add: g pp ms call_getLogProof_def)
  also have "\<dots> = proof_loop e t w"
    by (rule proof_loop_hit[OF before hit, symmetric])
  finally show ?thesis .
next
  case False
  then have "\<forall>k. getLogProof e t 0 (proofCalls w + k) = Returns None" by simp
  moreover from this g have "\<forall>k. getLogProof e' t 0 (proofCalls w + k) = Returns None" by simp
  ultimately show ?thesis by (simp add: proof_loop_diverges)
qed

lemma other_indices_unused:
  assumes "\<forall>h k. g h 0 k = getLogProof e h 0 k"
  shows "main (e\<lparr>getLogProof := g\<rparr>) = main e"
    and "main_js (e\<lparr>getLogProof := g\<rparr>) = main_js e"
proof -
  let ?e = "e\<lparr>getLogProof := g\<rparr>"
  have fin: "\<And>n. waitUntilBlockFinalized ?e n = waitUntilBlockFinalized e n"
    unfolding waitUntilBlockFinalized_def by (intro ext finalized_loop_cong) simp_all
  have root: "\<And>c b x. waitUntilRootBecomesAvailable ?e c b x = waitUntilRootBecomesAvailable e c b x"
    unfolding waitUntilRootBecomesAvailable_def by (intro ext root_loop_cong) simp_all
  have loop: "\<And>t. proof_loop ?e t = proof_loop e t"
    using assms by (intro ext proof_loop_cong) simp_all
  have wait: "\<And>n t. waitForL2ToL1LogProof ?e n t = waitForL2ToL1LogProof e n t"
    by (simp add: waitForL2ToL1LogProof_def fin loop)
  have q: "\<And>t. call_getLogProof ?e t 0 = call_getLogProof e t 0"
    using assms by (intro ext) (simp add: call_getLogProof_def)
  have c1: "call_getNetwork ?e = call_getNetwork e"
    by (intro ext) (simp add: call_getNetwork_def)
  have c2: "call_sendMessage ?e = call_sendMessage e"
    by (intro ext) (simp add: call_sendMessage_def)
  have c3: "call_executeBundle ?e = call_executeBundle e"
    by (intro ext) (simp add: call_executeBundle_def)
  have c4: "call_sendToL1 ?e = call_sendToL1 e"
    by (intro ext) (simp add: call_sendToL1_def)
  have c5: "call_proveInclusion ?e = call_proveInclusion e"
    by (intro ext) (simp add: call_proveInclusion_def)
  have tp: "tryParseLog ?e = tryParseLog e"
    by (intro ext) (simp add: tryParseLog_def)
  have be: "bundleEvent ?e = bundleEvent e"
    by (intro ext) (simp add: bundleEvent_def tp)
  have ap: "\<And>r bs. after_proof ?e r bs = after_proof e r bs"
    unfolding after_proof_def q c1 c3 root ..
  have ab: "\<And>r bs. after_bundle ?e r bs = after_bundle e r bs"
    unfolding after_bundle_def wait ap ..
  have apj: "\<And>r. after_proof_js ?e r = after_proof_js e r"
    unfolding after_proof_js_def q c1 c5 root ..
  have ae: "abiEncode ?e = abiEncode e" by simp
  show "main ?e = main e"
    unfolding main_def c2 be ab ae ..
  show "main_js ?e = main_js e"
    unfolding main_js_def c2 c4 wait apj ..
qed

lemma main_after_bundle:
  assumes "sendMessage e = Returns (Some rc)" and "bundleEvent e rc = Some ev"
      and "abiEncode e (interopBundle ev) = Returns bs"
  shows "main e w = after_bundle e rc bs (emit EvSendMessage w)"
  using assms by (simp add: main_def bind_io_def await_def call_sendMessage_def)

lemma ready_final:
  "waitUntilBlockFinalized env_ready 5 w =
     (Inr (), snd (call_getBlock env_ready (block_polled env_ready 2 w)))" if "blockCalls w = 0"
proof -
  have "(2::nat) < DEFAULT_TIMEOUT div POLL_INTERVAL" by (simp add: budget)
  moreover have "\<forall>i<2. executedBlock (getBlock env_ready (blockCalls w + i)) < 5"
    using that by (simp add: env_ready_def executedBlock_def)
  moreover have "5 \<le> executedBlock (getBlock env_ready (blockCalls w + 2))"
    using that by (simp add: env_ready_def executedBlock_def)
  ultimately show ?thesis
    unfolding waitUntilBlockFinalized_def by (rule finalized_loop_hit)
qed

lemma ready_proof:
  "proof_loop env_ready t w =
     Some (Inr (), snd (call_getLogProof env_ready t 0 (proof_polled env_ready t 3 w)))"
  if "proofCalls w = 0"
proof -
  have a: "\<forall>i<3. getLogProof env_ready t 0 (proofCalls w + i) = Returns None"
    using that by (simp add: env_ready_def)
  have b: "getLogProof env_ready t 0 (proofCalls w + 3) \<noteq> Returns None"
    using that by (simp add: env_ready_def)
  show ?thesis
    using proof_loop_hit[OF a b] that by (simp add: env_ready_def)
qed

lemma ready_root:
  "waitUntilRootBecomesAvailable env_ready c b root_ex w =
     (Inr (), snd (call_interopRoots env_ready c b (root_polled env_ready c b 4 w)))"
  if "rootCalls w = 0"
proof -
  have k: "(4::nat) < DEFAULT_TIMEOUT div POLL_INTERVAL" by (simp add: budget)
  have a: "\<forall>i<4. \<not> root_present (root_of (interopRoots env_ready c b (rootCalls w + i)))"
    using that by (simp add: env_ready_def root_of_def root_present_simps)
  have h: "interopRoots env_ready c b (rootCalls w + 4) = Returns root_ex"
    using that by (simp add: env_ready_def)
  show ?thesis
    unfolding waitUntilRootBecomesAvailable_def
    using root_loop_hit[OF k a h root_ex_present, of root_ex] by simp
qed

lemma replicate_numeral_unfold:
  "replicate 2 x = [x, x]" "replicate 3 x = [x, x, x]" "replicate 4 x = [x, x, x, x]"
  by (simp_all add: numeral_2_eq_2 numeral_3_eq_3 eval_nat_numeral)

lemma env_ready_fields:
  "getNetwork env_ready = Returns 270"
  "pollingInterval env_ready = 1000"
  "executeBundle env_ready bs p = Returns ()"
  "getLogProof env_ready h i k = (if k < 3 then Returns None else Returns (Some proof_ex))"
  "sendMessage env_ready = Returns (Some receipt_ex)"
  "sendToL1 env_ready = Returns (Some receipt_ex)"
  "abiEncode env_ready bd = Returns bd"
  "proveL2MessageInclusionShared env_ready p = Returns True"
  "getBlock_ms env_ready k = 20"
  "getLogProof_ms env_ready h i k = 30"
  "interopRoots_ms env_ready c b k = 10"
  by (simp_all add: env_ready_def)

lemma main_env_ready: "main env_ready world0 = Some (Inr (), run_ready)"
proof -
  have ev: "bundleEvent env_ready receipt_ex = Some \<lparr>name = ''InteropBundleSent'', interopBundle = ''0xb0''\<rparr>"
    by (simp add: bundleEvent_def env_ready_def receipt_ex_def tryParseLog_def isBundleSent_def)
  have m: "main env_ready world0 = after_bundle env_ready receipt_ex ''0xb0'' (emit EvSendMessage world0)"
    by (rule main_after_bundle[OF _ ev]) (simp_all add: env_ready_fields)
  have w: "waitForL2ToL1LogProof env_ready 5 ''0xabc1'' (emit EvSendMessage world0) =
      Some (Inr (), snd (call_getLogProof env_ready ''0xabc1'' 0 (proof_polled env_ready ''0xabc1'' 3
         (snd (call_getBlock env_ready (block_polled env_ready 2 (emit EvSendMessage world0)))))))"
    by (simp add: waitFor_unfold ready_final ready_proof emit_def world0_def call_getBlock_def
        block_polled_def)
  show ?thesis
    unfolding m after_bundle_def after_proof_def
    by (simp add: bind_io_def w await_def total_io_def receipt_ex_def)
       (simp add: call_getLogProof_def proof_polled_def call_getBlock_def block_polled_def
          emit_def world0_def env_ready_fields proof_ex_def select_l2ToL1Log_def l2ToL1Log_def
          opt_index_def nullish_def return_io_def bind_io_def await_def call_getNetwork_def
          total_io_def ready_root call_interopRoots_def root_polled_def call_executeBundle_def
          run_ready_def POLL_INTERVAL_def replicate_numeral_unfold)
qed

lemma new_events_append: "trace w' = trace w @ evs \<Longrightarrow> new_events w w' = evs"
  by (simp add: new_events_def)

lemma index_zero_query: "list_all index_zero evs \<Longrightarrow> EvGetLogProof h i \<in> set evs \<Longrightarrow> i = 0"
  by (auto simp: list_all_iff index_zero_def)

text \<open>
  Claim C10. Every proof query that either script issues, in the polling loop and in the
  final retrieval, asks for log index 0: a run that returns has added no
  \<open>EvGetLogProof\<close> call with another index, and what the endpoint would answer for any
  other index has no influence on the flow at all (also not on whether it returns).
\<close>

theorem proof_queries_use_index_zero:
  "(main e w = Some (res, w') \<longrightarrow>
      (\<forall>h i. EvGetLogProof h i \<in> set (new_events w w') \<longrightarrow> i = 0)) \<and>
   (main_js e w = Some (res, w') \<longrightarrow>
      (\<forall>h i. EvGetLogProof h i \<in> set (new_events w w') \<longrightarrow> i = 0)) \<and>
   ((\<forall>h k. g h 0 k = getLogProof e h 0 k) \<longrightarrow>
      main (e\<lparr>getLogProof := g\<rparr>) w = main e w \<and>
      main_js (e\<lparr>getLogProof := g\<rparr>) w = main_js e w)"
proof (intro conjI impI allI)
  fix h i
  assume "main e w = Some (res, w')" and q: "EvGetLogProof h i \<in> set (new_events w w')"
  from emits_onlyD[OF main_emits this(1)] obtain evs where
    "trace w' = trace w @ evs" "list_all index_zero evs" by blast
  with q show "i = 0" by (simp add: new_events_append index_zero_query)
next
  fix h i
  assume "main_js e w = Some (res, w')"
    and q: "EvGetLogProof h i \<in> set (new_events w w')"
  from emits_onlyD[OF main_js_emits this(1)] obtain evs where
    "trace w' = trace w @ evs" "list_all index_zero evs" by blast
  with q show "i = 0" by (simp add: new_events_append index_zero_query)
next
  assume a: "\<forall>h k. g h 0 k = getLogProof e h 0 k"
  show "main (e\<lparr>getLogProof := g\<rparr>) w = main e w"
    using other_indices_unused(1)[of g e] a by simp
  show "main_js (e\<lparr>getLogProof := g\<rparr>) w = main_js e w"
    using other_indices_unused(2)[of g e] a by simp
qed

theorem proof_queries_use_index_zero_witness:
  "main env_ready world0 = Some (Inr (), run_ready) \<and>
   EvGetLogProof ''0xabc1'' 0 \<in> set (new_events world0 run_ready) \<and>
   EvGetLogProof ''0xabc1'' 1 \<notin> set (new_events world0 run_ready) \<and>
   main (env_ready\<lparr>getLogProof :=
           (\<lambda>h i k. if i = 0 then getLogProof env_ready h 0 k else Throws ''no such log'')\<rparr>)
     world0 = Some (Inr (), run_ready)"
proof -
  let ?g = "\<lambda>h i k. if i = 0 then getLogProof env_ready h 0 k else Throws ''no such log''"
  note t = proof_queries_use_index_zero[where e=env_ready and w=world0 and res="Inr ()"
      and w'=run_ready and g="?g"]
  have same: "\<forall>h k. ?g h 0 k = getLogProof env_ready h 0 k" by simp
  have "EvGetLogProof ''0xabc1'' 0 \<in> set (new_events world0 run_ready)"
    by (simp add: new_events_def world0_def run_ready_def)
  moreover have "EvGetLogProof ''0xabc1'' 1 \<notin> set (new_events world0 run_ready)"
    using t main_env_ready by fastforce
  moreover have "main (env_ready\<lparr>getLogProof := ?g\<rparr>) world0 = Some (Inr (), run_ready)"
    using t same main_env_ready by simp
  ultimately show ?thesis using main_env_ready by simp
qed

section \<open>Finality before proof queries\<close>

lemma bind_io_Inl: "m w = Some (Inl err, w1) \<Longrightarrow> bind_io m f w = Some (Inl err, w1)"
  by (simp add: bind_io_def)

lemma bind_io_None: "m w = None \<Longrightarrow> bind_io m f w = None"
  by (simp add: bind_io_def)

lemma no_query_in_finality:
  "\<exists>evs. trace (snd (waitUntilBlockFinalized e n w)) = trace w @ evs \<and>
         (\<forall>h i. EvGetLogProof h i \<notin> set evs)"
proof -
  from finalized_loop_trace[of e n "DEFAULT_TIMEOUT div POLL_INTERVAL" w] obtain evs where
    t: "trace (snd (waitUntilBlockFinalized e n w)) = trace w @ evs"
    and a: "list_all (\<lambda>ev. ev = EvGetBlock \<or> ev = EvSleep POLL_INTERVAL) evs"
    by (auto simp: waitUntilBlockFinalized_def)
  from a have "\<forall>h i. EvGetLogProof h i \<notin> set evs" by (auto simp: list_all_iff)
  with t show ?thesis by blast
qed

lemma wait_then:
  fixes rest :: "unit io"
  assumes rest: "emits_only (\<lambda>ev. True) rest"
  shows "(bind_io (waitForL2ToL1LogProof e n t) (\<lambda>u. rest) w = Some (res, w') \<longrightarrow>
            (\<exists>evs. trace w' = trace w @ evs \<and>
              ((\<forall>h i. EvGetLogProof h i \<notin> set evs) \<or>
               (\<exists>wf fevs tl. waitUntilBlockFinalized e n w = (Inr (), wf) \<and>
                  trace wf = trace w @ fevs \<and> evs = fevs @ tl \<and>
                  (\<forall>h i. EvGetLogProof h i \<notin> set fevs))))) \<and>
         (bind_io (waitForL2ToL1LogProof e n t) (\<lambda>u. rest) w = None \<longrightarrow>
            (\<exists>wf. waitUntilBlockFinalized e n w = (Inr (), wf)))"
proof -
  obtain rf wf where fin: "waitUntilBlockFinalized e n w = (rf, wf)"
    by (cases "waitUntilBlockFinalized e n w")
  from no_query_in_finality[of e n w] fin obtain fevs where
    fevs: "trace wf = trace w @ fevs" "\<forall>h i. EvGetLogProof h i \<notin> set fevs" by auto
  show ?thesis
  proof (cases rf)
    case (Inl err)
    with fin have "waitForL2ToL1LogProof e n t w = Some (Inl err, wf)"
      by (simp add: waitFor_unfold)
    then have "bind_io (waitForL2ToL1LogProof e n t) (\<lambda>u. rest) w = Some (Inl err, wf)"
      by (rule bind_io_Inl)
    with fevs show ?thesis by auto
  next
    case (Inr u)
    with fin have eq: "waitForL2ToL1LogProof e n t w = proof_loop e t wf"
      by (simp add: waitFor_unfold)
    have em: "emits_only (\<lambda>ev. True) (bind_io (proof_loop e t) (\<lambda>u. rest))"
      by (intro emits_only_bind rest emits_only_mono[OF proof_loop_emits]) simp
    have b: "bind_io (waitForL2ToL1LogProof e n t) (\<lambda>u. rest) w =
             bind_io (proof_loop e t) (\<lambda>u. rest) wf"
      by (simp add: bind_io_def eq)
    have "bind_io (waitForL2ToL1LogProof e n t) (\<lambda>u. rest) w = Some (res, w') \<longrightarrow>
            (\<exists>evs. trace w' = trace w @ evs \<and>
               (\<exists>wf fevs tl. waitUntilBlockFinalized e n w = (Inr (), wf) \<and>
                  trace wf = trace w @ fevs \<and> evs = fevs @ tl \<and>
                  (\<forall>h i. EvGetLogProof h i \<notin> set fevs)))"
    proof
      assume "bind_io (waitForL2ToL1LogProof e n t) (\<lambda>u. rest) w = Some (res, w')"
      with b have "bind_io (proof_loop e t) (\<lambda>u. rest) wf = Some (res, w')" by simp
      from emits_onlyD[OF em this] obtain tl where "trace w' = trace wf @ tl" by blast
      with fevs have "trace w' = trace w @ (fevs @ tl)" by simp
      moreover from fin Inr have "waitUntilBlockFinalized e n w = (Inr (), wf)" by simp
      ultimately show "\<exists>evs. trace w' = trace w @ evs \<and>
               (\<exists>wf fevs tl. waitUntilBlockFinalized e n w = (Inr (), wf) \<and>
                  trace wf = trace w @ fevs \<and> evs = fevs @ tl \<and>
                  (\<forall>h i. EvGetLogProof h i \<notin> set fevs))" using fevs by blast
    qed
    moreover have "bind_io (waitForL2ToL1LogProof e n t) (\<lambda>u. rest) w = None \<longrightarrow>
            (\<exists>wf. waitUntilBlockFinalized e n w = (Inr (), wf))"
      using fin Inr by simp
    ultimately show ?thesis by blast
  qed
qed

lemma main_cases:
  "(\<exists>err. main e w = Some (Inl err, emit EvSendMessage w)) \<or>
   (\<exists>rc ev bs. sendMessage e = Returns (Some rc) \<and> bundleEvent e rc = Some ev \<and>
      abiEncode e (interopBundle ev) = Returns bs \<and>
      main e w = after_bundle e rc bs (emit EvSendMessage w))"
  by (auto simp: main_def bind_io_def await_def call_sendMessage_def throw_io_def
      split: fetch.splits option.splits)

lemma main_js_cases:
  "(\<exists>err w1. main_js e w = Some (Inl err, w1) \<and>
       (w1 = emit EvSendMessage w \<or> w1 = emit EvSendToL1 (emit EvSendMessage w))) \<or>
   (\<exists>rc. sendToL1 e = Returns (Some rc) \<and>
      main_js e w =
        bind_io (waitForL2ToL1LogProof e (blockNumber rc) (hash rc))
          (\<lambda>u. after_proof_js e rc) (emit EvSendToL1 (emit EvSendMessage w)))"
  by (auto simp: main_js_def bind_io_def await_def call_sendMessage_def call_sendToL1_def
      throw_io_def split: fetch.splits option.splits)

lemma emits_anything: "emits_only P m \<Longrightarrow> emits_only (\<lambda>ev. True) m"
  by (erule emits_only_mono) simp

lemma trace_emit: "trace (emit ev w) = trace w @ [ev]"
  by (simp add: emit_def)

lemma main_finality_first:
  "(main e w = Some (res, w') \<longrightarrow>
      (\<forall>h i. EvGetLogProof h i \<notin> set (new_events w w')) \<or>
      (\<exists>rc wf tl. sendMessage e = Returns (Some rc) \<and>
         waitUntilBlockFinalized e (blockNumber rc) (emit EvSendMessage w) = (Inr (), wf) \<and>
         trace w' = trace wf @ tl \<and>
         (\<forall>h i. EvGetLogProof h i \<notin> set (new_events w wf)))) \<and>
   (main e w = None \<longrightarrow>
      (\<exists>rc wf. sendMessage e = Returns (Some rc) \<and>
         waitUntilBlockFinalized e (blockNumber rc) (emit EvSendMessage w) = (Inr (), wf)))"
  (is "(?run \<longrightarrow> ?none \<or> ?after) \<and> (?hang \<longrightarrow> ?fin)")
  using main_cases[of e w]
proof (elim disjE exE conjE)
  fix err
  let ?w1 = "emit EvSendMessage w"
  assume m: "main e w = Some (Inl err, ?w1)"
  have "new_events w ?w1 = [EvSendMessage]" by (simp add: new_events_def emit_def)
  with m have "?run \<longrightarrow> ?none" by auto
  moreover from m have "\<not> ?hang" by simp
  ultimately show ?thesis by blast
next
  fix rc ev bs
  let ?w1 = "emit EvSendMessage w"
  assume rc: "sendMessage e = Returns (Some rc)"
    and m: "main e w = after_bundle e rc bs ?w1"
  note wt = wait_then[OF emits_anything[OF after_proof_emits[of e rc bs]],
      of e "blockNumber rc" "hash rc" ?w1 res w', folded after_bundle_def]
  have "?none \<or> ?after" if "?run"
  proof -
    from that m wt obtain evs where evs: "trace w' = trace ?w1 @ evs"
      and d: "(\<forall>h i. EvGetLogProof h i \<notin> set evs) \<or>
           (\<exists>wf fevs tl. waitUntilBlockFinalized e (blockNumber rc) ?w1 = (Inr (), wf) \<and>
              trace wf = trace ?w1 @ fevs \<and> evs = fevs @ tl \<and>
              (\<forall>h i. EvGetLogProof h i \<notin> set fevs))" by auto
    from evs have ne: "new_events w w' = EvSendMessage # evs"
      by (simp add: new_events_def trace_emit)
    from d show ?thesis
    proof
      assume "\<forall>h i. EvGetLogProof h i \<notin> set evs"
      with ne show ?thesis by simp
    next
      assume "\<exists>wf fevs tl. waitUntilBlockFinalized e (blockNumber rc) ?w1 = (Inr (), wf) \<and>
              trace wf = trace ?w1 @ fevs \<and> evs = fevs @ tl \<and>
              (\<forall>h i. EvGetLogProof h i \<notin> set fevs)"
      then obtain wf fevs tl where
        f: "waitUntilBlockFinalized e (blockNumber rc) ?w1 = (Inr (), wf)"
          "trace wf = trace ?w1 @ fevs" "evs = fevs @ tl" "\<forall>h i. EvGetLogProof h i \<notin> set fevs"
        by blast
      then have "new_events w wf = EvSendMessage # fevs"
        by (simp add: new_events_def trace_emit)
      with f evs rc have "sendMessage e = Returns (Some rc) \<and>
         waitUntilBlockFinalized e (blockNumber rc) ?w1 = (Inr (), wf) \<and>
         trace w' = trace wf @ tl \<and> (\<forall>h i. EvGetLogProof h i \<notin> set (new_events w wf))"
        by simp
      then show ?thesis by blast
    qed
  qed
  moreover from m wt rc have "?hang \<longrightarrow> ?fin" by auto
  ultimately show ?thesis by blast
qed

lemma main_js_finality_first:
  "(main_js e w = Some (res, w') \<longrightarrow>
      (\<forall>h i. EvGetLogProof h i \<notin> set (new_events w w')) \<or>
      (\<exists>rc wf tl. sendToL1 e = Returns (Some rc) \<and>
         waitUntilBlockFinalized e (blockNumber rc) (emit EvSendToL1 (emit EvSendMessage w)) =
           (Inr (), wf) \<and>
         trace w' = trace wf @ tl \<and>
         (\<forall>h i. EvGetLogProof h i \<notin> set (new_events w wf)))) \<and>
   (main_js e w = None \<longrightarrow>
      (\<exists>rc wf. sendToL1 e = Returns (Some rc) \<and>
         waitUntilBlockFinalized e (blockNumber rc) (emit EvSendToL1 (emit EvSendMessage w)) =
           (Inr (), wf)))"
  (is "(?run \<longrightarrow> ?none \<or> ?after) \<and> (?hang \<longrightarrow> ?fin)")
  using main_js_cases[of e w]
proof (elim disjE exE conjE)
  fix err w1
  assume m: "main_js e w = Some (Inl err, w1)"
    and "w1 = emit EvSendMessage w"
  then have "new_events w w1 = [EvSendMessage]" by (simp add: new_events_def emit_def)
  with m have "?run \<longrightarrow> ?none" by auto
  moreover from m have "\<not> ?hang" by simp
  ultimately show ?thesis by blast
next
  fix err w1
  assume m: "main_js e w = Some (Inl err, w1)"
    and "w1 = emit EvSendToL1 (emit EvSendMessage w)"
  then have "new_events w w1 = [EvSendMessage, EvSendToL1]" by (simp add: new_events_def emit_def)
  with m have "?run \<longrightarrow> ?none" by auto
  moreover from m have "\<not> ?hang" by simp
  ultimately show ?thesis by blast
next
  fix rc
  let ?w2 = "emit EvSendToL1 (emit EvSendMessage w)"
  assume rc: "sendToL1 e = Returns (Some rc)"
    and m: "main_js e w =
      bind_io (waitForL2ToL1LogProof e (blockNumber rc) (hash rc))
        (\<lambda>u. after_proof_js e rc) ?w2"
  note wt = wait_then[OF emits_anything[OF after_proof_js_emits[of e rc]],
      of e "blockNumber rc" "hash rc" ?w2 res w']
  have "?none \<or> ?after" if "?run"
  proof -
    from that m wt obtain evs where evs: "trace w' = trace ?w2 @ evs"
      and d: "(\<forall>h i. EvGetLogProof h i \<notin> set evs) \<or>
           (\<exists>wf fevs tl. waitUntilBlockFinalized e (blockNumber rc) ?w2 = (Inr (), wf) \<and>
              trace wf = trace ?w2 @ fevs \<and> evs = fevs @ tl \<and>
              (\<forall>h i. EvGetLogProof h i \<notin> set fevs))" by auto
    from evs have ne: "new_events w w' = EvSendMessage # EvSendToL1 # evs"
      by (simp add: new_events_def trace_emit)
    from d show ?thesis
    proof
      assume "\<forall>h i. EvGetLogProof h i \<notin> set evs"
      with ne show ?thesis by simp
    next
      assume "\<exists>wf fevs tl. waitUntilBlockFinalized e (blockNumber rc) ?w2 = (Inr (), wf) \<and>
              trace wf = trace ?w2 @ fevs \<and> evs = fevs @ tl \<and>
              (\<forall>h i. EvGetLogProof h i \<notin> set fevs)"
      then obtain wf fevs tl where
        f: "waitUntilBlockFinalized e (blockNumber rc) ?w2 = (Inr (), wf)"
          "trace wf = trace ?w2 @ fevs" "evs = fevs @ tl" "\<forall>h i. EvGetLogProof h i \<notin> set fevs"
        by blast
      then have "new_events w wf = EvSendMessage # EvSendToL1 # fevs"
        by (simp add: new_events_def trace_emit)
      with f evs rc have "sendToL1 e = Returns (Some rc) \<and>
         waitUntilBlockFinalized e (blockNumber rc) ?w2 = (Inr (), wf) \<and>
         trace w' = trace wf @ tl \<and> (\<forall>h i. EvGetLogProof h i \<notin> set (new_events w wf))"
        by simp
      then show ?thesis by blast
    qed
  qed
  moreover from m wt rc have "?hang \<longrightarrow> ?fin" by auto
  ultimately show ?thesis by blast
qed

text \<open>
  Claim C6. In a run of either script that returns, either no proof query was issued, or
  the finality waiter for the block of the sending transaction ran first and returned
  successfully, and every proof query comes after its last call. A run that does not return
  has likewise completed the finality wait successfully: it hangs in the proof polling.
\<close>

theorem finality_precedes_proof_queries:
  "(main e w = Some (res, w') \<longrightarrow>
      (\<forall>h i. EvGetLogProof h i \<notin> set (new_events w w')) \<or>
      (\<exists>rc wf tl. sendMessage e = Returns (Some rc) \<and>
         waitUntilBlockFinalized e (blockNumber rc) (emit EvSendMessage w) = (Inr (), wf) \<and>
         trace w' = trace wf @ tl \<and>
         (\<forall>h i. EvGetLogProof h i \<notin> set (new_events w wf)))) \<and>
   (main e w = None \<longrightarrow>
      (\<exists>rc wf. sendMessage e = Returns (Some rc) \<and>
         waitUntilBlockFinalized e (blockNumber rc) (emit EvSendMessage w) = (Inr (), wf))) \<and>
   (main_js e w = Some (res, w') \<longrightarrow>
      (\<forall>h i. EvGetLogProof h i \<notin> set (new_events w w')) \<or>
      (\<exists>rc wf tl. sendToL1 e = Returns (Some rc) \<and>
         waitUntilBlockFinalized e (blockNumber rc) (emit EvSendToL1 (emit EvSendMessage w)) =
           (Inr (), wf) \<and>
         trace w' = trace wf @ tl \<and>
         (\<forall>h i. EvGetLogProof h i \<notin> set (new_events w wf)))) \<and>
   (main_js e w = None \<longrightarrow>
      (\<exists>rc wf. sendToL1 e = Returns (Some rc) \<and>
         waitUntilBlockFinalized e (blockNumber rc) (emit EvSendToL1 (emit EvSendMessage w)) =
           (Inr (), wf)))"
  using main_finality_first[of e w res w'] main_js_finality_first[of e w res w']
  by blast

section \<open>Receipt logs\<close>

lemma isBundleSent_tryParseLog:
  "isBundleSent (tryParseLog e l) \<longleftrightarrow>
   (\<exists>d. parseLog e l = Returns (Some d) \<and> name d = ''InteropBundleSent'')"
  by (auto simp: isBundleSent_def tryParseLog_def split: fetch.splits option.splits)

lemma bundleEvent_None:
  "bundleEvent e rc = None \<longleftrightarrow>
   (\<forall>l \<in> set (case logs rc of None \<Rightarrow> [] | Some ls \<Rightarrow> ls).
      \<not> (\<exists>d. parseLog e l = Returns (Some d) \<and> name d = ''InteropBundleSent''))"
proof -
  let ?ls = "case logs rc of None \<Rightarrow> [] | Some ls \<Rightarrow> ls"
  have "bundleEvent e rc = None \<longleftrightarrow> find isBundleSent (map (tryParseLog e) ?ls) = None"
  proof
    assume "bundleEvent e rc = None"
    show "find isBundleSent (map (tryParseLog e) ?ls) = None"
    proof (cases "find isBundleSent (map (tryParseLog e) ?ls)")
      case None
      then show ?thesis .
    next
      case (Some p)
      then have "isBundleSent p" by (auto simp: find_Some_iff)
      then have "p \<noteq> None" by (cases p) (auto simp: isBundleSent_def)
      with Some \<open>bundleEvent e rc = None\<close> show ?thesis by (simp add: bundleEvent_def)
    qed
  next
    assume "find isBundleSent (map (tryParseLog e) ?ls) = None"
    then show "bundleEvent e rc = None" by (simp add: bundleEvent_def)
  qed
  also have "\<dots> \<longleftrightarrow> (\<forall>l \<in> set ?ls. \<not> isBundleSent (tryParseLog e l))"
    by (auto simp: find_None_iff)
  finally show ?thesis by (simp add: isBundleSent_tryParseLog)
qed

lemma main_without_event:
  assumes "sendMessage e = Returns (Some rc)" and "bundleEvent e rc = None"
  shows "main e w = Some (Inl (Error ''InteropBundleSent event not found in receipt logs.''),
                         emit EvSendMessage w)"
  using assms by (simp add: main_def bind_io_def await_def call_sendMessage_def throw_io_def)

text \<open>
  Claim C7. When no log of the mined receipt parses as an \<open>InteropBundleSent\<close> event,
  \<^verbatim>\<open>main\<close> ends with the error "InteropBundleSent event not found in receipt logs."
  right after the receipt: nothing is sent again and no further call is made. A run that
  goes on after the receipt (or does not return) has found such an event.
\<close>

theorem missing_bundle_event_is_fatal:
  "sendMessage e = Returns (Some rc) \<longrightarrow>
   ((\<forall>l \<in> set (case logs rc of None \<Rightarrow> [] | Some ls \<Rightarrow> ls).
       \<not> (\<exists>d. parseLog e l = Returns (Some d) \<and> name d = ''InteropBundleSent'')) \<longrightarrow>
      main e w = Some (Inl (Error ''InteropBundleSent event not found in receipt logs.''),
                       emit EvSendMessage w)) \<and>
   ((main e w = None \<or> (\<exists>res w'. main e w = Some (res, w') \<and> w' \<noteq> emit EvSendMessage w)) \<longrightarrow>
      (\<exists>l \<in> set (case logs rc of None \<Rightarrow> [] | Some ls \<Rightarrow> ls).
         \<exists>d. parseLog e l = Returns (Some d) \<and> name d = ''InteropBundleSent''))"
proof (intro impI conjI)
  assume rc: "sendMessage e = Returns (Some rc)"
  {
    assume "\<forall>l \<in> set (case logs rc of None \<Rightarrow> [] | Some ls \<Rightarrow> ls).
       \<not> (\<exists>d. parseLog e l = Returns (Some d) \<and> name d = ''InteropBundleSent'')"
    then have "bundleEvent e rc = None" unfolding bundleEvent_None .
    from main_without_event[OF rc this]
    show "main e w = Some (Inl (Error ''InteropBundleSent event not found in receipt logs.''),
                       emit EvSendMessage w)" .
  }
  assume past: "main e w = None \<or> (\<exists>res w'. main e w = Some (res, w') \<and> w' \<noteq> emit EvSendMessage w)"
  show "\<exists>l \<in> set (case logs rc of None \<Rightarrow> [] | Some ls \<Rightarrow> ls).
         \<exists>d. parseLog e l = Returns (Some d) \<and> name d = ''InteropBundleSent''"
  proof (rule ccontr)
    assume "\<not> (\<exists>l \<in> set (case logs rc of None \<Rightarrow> [] | Some ls \<Rightarrow> ls).
         \<exists>d. parseLog e l = Returns (Some d) \<and> name d = ''InteropBundleSent'')"
    then have "bundleEvent e rc = None" unfolding bundleEvent_None by blast
    from main_without_event[OF rc this] past show False by auto
  qed
qed

lemma after_proof_unfold:
  assumes "getLogProof e (hash rc) 0 (proofCalls w) = Returns (Some lp)"
  shows "after_proof e rc bs w =
     (case l2ToL1Log rc (id_lp lp) of
        None \<Rightarrow> Some (Inl (Error ''Missing L2->L1 log in receipt; adjust log index selection.''),
                      snd (call_getLogProof e (hash rc) 0 w))
      | Some l \<Rightarrow>
          bind_io (await (call_getNetwork e)) (\<lambda>chainIdA.
            bind_io (await (call_getNetwork e)) (\<lambda>chainIdA2.
            bind_io (total_io (waitUntilRootBecomesAvailable e chainIdA2 (batch_number lp)
                                 (root_lp lp))) (\<lambda>u.
            await (call_executeBundle e bs
                \<lparr>chainId_mp = chainIdA, l1BatchNumber = batch_number lp,
                 l2MessageIndex = id_lp lp,
                 message_mp = \<lparr>txNumberInBatch = index_tx rc,
                               sender_msg = sender l, data_msg = data_l2 l\<rparr>,
                 proof_mp = proof_lp lp\<rparr>))))
          (snd (call_getLogProof e (hash rc) 0 w)))"
  using assms
  by (simp add: after_proof_def bind_io_def await_def call_getLogProof_def select_l2ToL1Log_def
      throw_io_def return_io_def Let_def split: option.splits)

text \<open>
  Claim C8. With the proof \<open>lp\<close> obtained, \<^verbatim>\<open>main\<close> takes the receipt's L2-to-L1 log
  at index \<open>id_lp lp\<close>; when there is no entry at that index it takes the entry at
  index 0; no entry is selected exactly when there is none at index 0 (the list is missing
  or empty), and then the flow ends with the error "Missing L2->L1 log in receipt".
  Otherwise the flow goes on with the sender and data of the selected entry.
\<close>

theorem outbound_log_selection:
  "(l2ToL1Logs rc = Some ls \<and> 0 \<le> id_lp lp \<and> id_lp lp < int (length ls) \<longrightarrow>
      l2ToL1Log rc (id_lp lp) = Some (ls ! nat (id_lp lp))) \<and>
   (l2ToL1Logs rc = Some ls \<and> \<not> (0 \<le> id_lp lp \<and> id_lp lp < int (length ls)) \<and> ls \<noteq> [] \<longrightarrow>
      l2ToL1Log rc (id_lp lp) = Some (ls ! 0)) \<and>
   (l2ToL1Log rc (id_lp lp) = None \<longleftrightarrow> l2ToL1Logs rc = None \<or> l2ToL1Logs rc = Some []) \<and>
   (getLogProof e (hash rc) 0 (proofCalls w) = Returns (Some lp) \<and>
    (l2ToL1Logs rc = None \<or> l2ToL1Logs rc = Some []) \<longrightarrow>
      after_proof e rc bs w =
         Some (Inl (Error ''Missing L2->L1 log in receipt; adjust log index selection.''),
               snd (call_getLogProof e (hash rc) 0 w))) \<and>
   (getLogProof e (hash rc) 0 (proofCalls w) = Returns (Some lp) \<and>
    l2ToL1Log rc (id_lp lp) = Some l \<longrightarrow>
      after_proof e rc bs w =
        bind_io (await (call_getNetwork e)) (\<lambda>chainIdA.
          bind_io (await (call_getNetwork e)) (\<lambda>chainIdA2.
          bind_io (total_io (waitUntilRootBecomesAvailable e chainIdA2 (batch_number lp)
                               (root_lp lp))) (\<lambda>u.
          await (call_executeBundle e bs
              \<lparr>chainId_mp = chainIdA, l1BatchNumber = batch_number lp,
               l2MessageIndex = id_lp lp,
               message_mp = \<lparr>txNumberInBatch = index_tx rc,
                             sender_msg = sender l, data_msg = data_l2 l\<rparr>,
               proof_mp = proof_lp lp\<rparr>))))
        (snd (call_getLogProof e (hash rc) 0 w)))"
proof -
  have none: "l2ToL1Log rc (id_lp lp) = None \<longleftrightarrow> l2ToL1Logs rc = None \<or> l2ToL1Logs rc = Some []"
    by (auto simp: l2ToL1Log_def nullish_def opt_index_def split: option.splits if_splits)
  have at_index: "l2ToL1Logs rc = Some ls \<and> 0 \<le> id_lp lp \<and> id_lp lp < int (length ls) \<longrightarrow>
      l2ToL1Log rc (id_lp lp) = Some (ls ! nat (id_lp lp))"
    by (simp add: l2ToL1Log_def nullish_def opt_index_def)
  have fallback: "l2ToL1Logs rc = Some ls \<and> \<not> (0 \<le> id_lp lp \<and> id_lp lp < int (length ls)) \<and>
      ls \<noteq> [] \<longrightarrow> l2ToL1Log rc (id_lp lp) = Some (ls ! 0)"
    by (auto simp: l2ToL1Log_def nullish_def opt_index_def)
  have fatal: "getLogProof e (hash rc) 0 (proofCalls w) = Returns (Some lp) \<and>
    (l2ToL1Logs rc = None \<or> l2ToL1Logs rc = Some []) \<longrightarrow>
      after_proof e rc bs w =
         Some (Inl (Error ''Missing L2->L1 log in receipt; adjust log index selection.''),
               snd (call_getLogProof e (hash rc) 0 w))"
    using none after_proof_unfold[of e rc w lp bs] by auto
  have goes_on: "getLogProof e (hash rc) 0 (proofCalls w) = Returns (Some lp) \<and>
    l2ToL1Log rc (id_lp lp) = Some l \<longrightarrow>
      after_proof e rc bs w =
        bind_io (await (call_getNetwork e)) (\<lambda>chainIdA.
          bind_io (await (call_getNetwork e)) (\<lambda>chainIdA2.
          bind_io (total_io (waitUntilRootBecomesAvailable e chainIdA2 (batch_number lp)
                               (root_lp lp))) (\<lambda>u.
          await (call_executeBundle e bs
              \<lparr>chainId_mp = chainIdA, l1BatchNumber = batch_number lp,
               l2MessageIndex = id_lp lp,
               message_mp = \<lparr>txNumberInBatch = index_tx rc,
                             sender_msg = sender l, data_msg = data_l2 l\<rparr>,
               proof_mp = proof_lp lp\<rparr>))))
        (snd (call_getLogProof e (hash rc) 0 w))"
    using after_proof_unfold[of e rc w lp bs] by simp
  from at_index fallback none fatal goes_on show ?thesis by blast
qed

section \<open>Runs on the example endpoints\<close>

lemma main_js_env_ready: "main_js env_ready world0 = Some (Inr (), run_ready_js)"
proof -
  let ?w2 = "emit EvSendToL1 (emit EvSendMessage world0)"
  have w: "waitForL2ToL1LogProof env_ready 5 ''0xabc1'' ?w2 =
      Some (Inr (), snd (call_getLogProof env_ready ''0xabc1'' 0 (proof_polled env_ready ''0xabc1'' 3
         (snd (call_getBlock env_ready (block_polled env_ready 2 ?w2))))))"
    by (simp add: waitFor_unfold ready_final ready_proof emit_def world0_def call_getBlock_def
        block_polled_def)
  show ?thesis
    unfolding main_js_def after_proof_js_def
    by (simp add: bind_io_def await_def call_sendMessage_def call_sendToL1_def env_ready_fields
          receipt_ex_def w[unfolded receipt_ex_def] total_io_def)
       (simp add: call_getLogProof_def proof_polled_def call_getBlock_def block_polled_def
          emit_def world0_def env_ready_fields proof_ex_def return_io_def bind_io_def await_def
          call_getNetwork_def total_io_def ready_root call_interopRoots_def root_polled_def
          call_proveInclusion_def run_ready_js_def POLL_INTERVAL_def replicate_numeral_unfold)
qed

lemma env_no_proof_fields:
  "sendMessage env_no_proof = Returns (Some receipt_ex)"
  "sendToL1 env_no_proof = Returns (Some receipt_ex)"
  "abiEncode env_no_proof bd = Returns bd"
  "getLogProof env_no_proof h i k = Returns None"
  "getBlock env_no_proof k = Returns (Some \<lparr>number = 5\<rparr>)"
  "parseLog env_no_proof = parseLog env_ready"
  by (simp_all add: env_no_proof_def env_ready_def)

lemma no_proof_final:
  "waitUntilBlockFinalized env_no_proof 5 w = (Inr (), snd (call_getBlock env_no_proof w))"
proof -
  have "(0::nat) < DEFAULT_TIMEOUT div POLL_INTERVAL" by (simp add: budget)
  moreover have "5 \<le> executedBlock (getBlock env_no_proof (blockCalls w + 0))"
    by (simp add: env_no_proof_fields executedBlock_def)
  ultimately show ?thesis
    using finalized_loop_hit[of 0 "DEFAULT_TIMEOUT div POLL_INTERVAL" env_no_proof w 5]
    by (simp add: waitUntilBlockFinalized_def block_polled_0)
qed

lemma no_proof_hangs: "waitForL2ToL1LogProof env_no_proof 5 t w = None"
proof -
  have "proof_loop env_no_proof t (snd (call_getBlock env_no_proof w)) = None"
    by (rule proof_loop_diverges) (simp add: env_no_proof_fields)
  then show ?thesis by (simp add: waitFor_unfold no_proof_final)
qed

lemma main_env_no_proof: "main env_no_proof world0 = None"
proof -
  have ev: "bundleEvent env_no_proof receipt_ex =
      Some \<lparr>name = ''InteropBundleSent'', interopBundle = ''0xb0''\<rparr>"
    by (simp add: bundleEvent_def env_no_proof_fields env_ready_def receipt_ex_def tryParseLog_def
        isBundleSent_def)
  have "main env_no_proof world0 =
        after_bundle env_no_proof receipt_ex ''0xb0'' (emit EvSendMessage world0)"
    by (rule main_after_bundle[OF _ ev]) (simp_all add: env_no_proof_fields)
  also have "\<dots> = None"
    unfolding after_bundle_def
    by (rule bind_io_None) (simp add: receipt_ex_def no_proof_hangs)
  finally show ?thesis .
qed

lemma main_js_env_no_proof: "main_js env_no_proof world0 = None"
  by (simp add: main_js_def bind_io_def await_def call_sendMessage_def call_sendToL1_def
      env_no_proof_fields receipt_ex_def no_proof_hangs)

theorem finality_precedes_proof_queries_witness:
  "main env_ready world0 = Some (Inr (), run_ready) \<and>
   (\<exists>wf tl. waitUntilBlockFinalized env_ready 5 (emit EvSendMessage world0) = (Inr (), wf) \<and>
      trace run_ready = trace wf @ tl \<and>
      (\<forall>h i. EvGetLogProof h i \<notin> set (new_events world0 wf))) \<and>
   main env_no_proof world0 = None \<and>
   (\<exists>wf. waitUntilBlockFinalized env_no_proof 5 (emit EvSendMessage world0) = (Inr (), wf)) \<and>
   main_js env_ready world0 = Some (Inr (), run_ready_js) \<and>
   (\<exists>wf tl. waitUntilBlockFinalized env_ready 5 (emit EvSendToL1 (emit EvSendMessage world0)) =
        (Inr (), wf) \<and> trace run_ready_js = trace wf @ tl \<and>
      (\<forall>h i. EvGetLogProof h i \<notin> set (new_events world0 wf))) \<and>
   main_js env_no_proof world0 = None \<and>
   (\<exists>wf. waitUntilBlockFinalized env_no_proof 5
           (emit EvSendToL1 (emit EvSendMessage world0)) = (Inr (), wf))"
proof -
  have q: "EvGetLogProof ''0xabc1'' 0 \<in> set (new_events world0 run_ready)"
    by (simp add: new_events_def world0_def run_ready_def)
  have qj: "EvGetLogProof ''0xabc1'' 0 \<in> set (new_events world0 run_ready_js)"
    by (simp add: new_events_def world0_def run_ready_js_def)
  have bn: "blockNumber receipt_ex = 5" by (simp add: receipt_ex_def)
  note r = finality_precedes_proof_queries[where e=env_ready and w=world0 and res="Inr ()"
      and w'=run_ready]
  note rj = finality_precedes_proof_queries[where e=env_ready and w=world0 and res="Inr ()"
      and w'=run_ready_js]
  note n = finality_precedes_proof_queries[where e=env_no_proof and w=world0
     ]
  from r main_env_ready q have "\<exists>rc wf tl. sendMessage env_ready = Returns (Some rc) \<and>
         waitUntilBlockFinalized env_ready (blockNumber rc) (emit EvSendMessage world0) = (Inr (), wf) \<and>
         trace run_ready = trace wf @ tl \<and>
         (\<forall>h i. EvGetLogProof h i \<notin> set (new_events world0 wf))" by blast
  then have 1: "\<exists>wf tl. waitUntilBlockFinalized env_ready 5 (emit EvSendMessage world0) = (Inr (), wf) \<and>
      trace run_ready = trace wf @ tl \<and>
      (\<forall>h i. EvGetLogProof h i \<notin> set (new_events world0 wf))"
    using bn by (auto simp: env_ready_fields)
  from n main_env_no_proof have "\<exists>rc wf. sendMessage env_no_proof = Returns (Some rc) \<and>
         waitUntilBlockFinalized env_no_proof (blockNumber rc) (emit EvSendMessage world0) = (Inr (), wf)"
    by blast
  then have 2: "\<exists>wf. waitUntilBlockFinalized env_no_proof 5 (emit EvSendMessage world0) = (Inr (), wf)"
    using bn by (auto simp: env_no_proof_fields)
  from rj main_js_env_ready qj have "\<exists>rc wf tl. sendToL1 env_ready = Returns (Some rc) \<and>
         waitUntilBlockFinalized env_ready (blockNumber rc)
           (emit EvSendToL1 (emit EvSendMessage world0)) = (Inr (), wf) \<and>
         trace run_ready_js = trace wf @ tl \<and>
         (\<forall>h i. EvGetLogProof h i \<notin> set (new_events world0 wf))" by blast
  then have 3: "\<exists>wf tl. waitUntilBlockFinalized env_ready 5 (emit EvSendToL1 (emit EvSendMessage world0)) =
        (Inr (), wf) \<and> trace run_ready_js = trace wf @ tl \<and>
      (\<forall>h i. EvGetLogProof h i \<notin> set (new_events world0 wf))"
    using bn by (auto simp: env_ready_fields)
  from n main_js_env_no_proof
  have "\<exists>rc wf. sendToL1 env_no_proof = Returns (Some rc) \<and>
         waitUntilBlockFinalized env_no_proof (blockNumber rc)
           (emit EvSendToL1 (emit EvSendMessage world0)) = (Inr (), wf)" by blast
  then have 4: "\<exists>wf. waitUntilBlockFinalized env_no_proof 5
           (emit EvSendToL1 (emit EvSendMessage world0)) = (Inr (), wf)"
    using bn by (auto simp: env_no_proof_fields)
  from 1 2 3 4 main_env_ready main_env_no_proof main_js_env_ready main_js_env_no_proof
  show ?thesis by simp
qed

theorem missing_bundle_event_is_fatal_witness:
  "main env_idle world0 =
     Some (Inl (Error ''InteropBundleSent event not found in receipt logs.''),
           emit EvSendMessage world0) \<and>
   (\<exists>l \<in> set (case logs receipt_ex of None \<Rightarrow> [] | Some ls \<Rightarrow> ls).
      \<exists>d. parseLog env_ready l = Returns (Some d) \<and> name d = ''InteropBundleSent'')"
proof -
  have s: "sendMessage env_idle = Returns (Some receipt_ex)" by (simp add: env_idle_def)
  have none: "\<forall>l \<in> set (case logs receipt_ex of None \<Rightarrow> [] | Some ls \<Rightarrow> ls).
       \<not> (\<exists>d. parseLog env_idle l = Returns (Some d) \<and> name d = ''InteropBundleSent'')"
    by (simp add: env_idle_def)
  have past: "\<exists>res w'. main env_ready world0 = Some (res, w') \<and> w' \<noteq> emit EvSendMessage world0"
    using main_env_ready by (simp add: run_ready_def emit_def world0_def)
  from missing_bundle_event_is_fatal[of env_idle receipt_ex world0] s none
  have "main env_idle world0 =
     Some (Inl (Error ''InteropBundleSent event not found in receipt logs.''),
           emit EvSendMessage world0)" by blast
  moreover from missing_bundle_event_is_fatal[of env_ready receipt_ex world0] past
  have "\<exists>l \<in> set (case logs receipt_ex of None \<Rightarrow> [] | Some ls \<Rightarrow> ls).
      \<exists>d. parseLog env_ready l = Returns (Some d) \<and> name d = ''InteropBundleSent''"
    by (simp add: env_ready_fields)
  ultimately show ?thesis by simp
qed

theorem outbound_log_selection_witness:
  "l2ToL1Log receipt_ex (id_lp proof_ex) =
     Some \<lparr>sender = ''0x0000000000000000000000000000000000010010'', data_l2 = ''0x22''\<rparr> \<and>
   l2ToL1Log receipt_ex (id_lp (proof_ex\<lparr>id_lp := 9\<rparr>)) =
     Some \<lparr>sender = ''0x0000000000000000000000000000000000008008'', data_l2 = ''0x11''\<rparr> \<and>
   l2ToL1Log (receipt_ex\<lparr>l2ToL1Logs := Some []\<rparr>) (id_lp proof_ex) = None \<and>
   after_proof env_ready (receipt_ex\<lparr>l2ToL1Logs := Some []\<rparr>) ''0xb0'' (world0\<lparr>proofCalls := 4\<rparr>) =
     Some (Inl (Error ''Missing L2->L1 log in receipt; adjust log index selection.''),
           snd (call_getLogProof env_ready ''0xabc1'' 0 (world0\<lparr>proofCalls := 4\<rparr>))) \<and>
   after_proof env_ready receipt_ex ''0xb0'' (world0\<lparr>proofCalls := 4\<rparr>) =
     bind_io (await (call_getNetwork env_ready)) (\<lambda>chainIdA.
       bind_io (await (call_getNetwork env_ready)) (\<lambda>chainIdA2.
       bind_io (total_io (waitUntilRootBecomesAvailable env_ready chainIdA2 7 root_ex)) (\<lambda>u.
       await (call_executeBundle env_ready ''0xb0''
           \<lparr>chainId_mp = chainIdA, l1BatchNumber = 7, l2MessageIndex = 1,
            message_mp = \<lparr>txNumberInBatch = 2,
                          sender_msg = ''0x0000000000000000000000000000000000010010'',
                          data_msg = ''0x22''\<rparr>,
            proof_mp = [''0x01'', ''0x02'']\<rparr>))))
     (snd (call_getLogProof env_ready ''0xabc1'' 0 (world0\<lparr>proofCalls := 4\<rparr>)))"
proof -
  let ?ls = "[\<lparr>sender = ''0x0000000000000000000000000000000000008008'', data_l2 = ''0x11''\<rparr>,
              \<lparr>sender = ''0x0000000000000000000000000000000000010010'', data_l2 = ''0x22''\<rparr>]"
  let ?rc0 = "receipt_ex\<lparr>l2ToL1Logs := Some []\<rparr>"
  let ?w = "world0\<lparr>proofCalls := 4\<rparr>"
  have ls: "l2ToL1Logs receipt_ex = Some ?ls" by (simp add: receipt_ex_def)
  have i1: "id_lp proof_ex = 1" by (simp add: proof_ex_def)
  have nth: "?ls ! nat 1 = \<lparr>sender = ''0x0000000000000000000000000000000000010010'', data_l2 = ''0x22''\<rparr>"
    by simp
  have a: "l2ToL1Log receipt_ex (id_lp proof_ex) =
     Some \<lparr>sender = ''0x0000000000000000000000000000000000010010'', data_l2 = ''0x22''\<rparr>"
    using outbound_log_selection[where rc=receipt_ex and ls="?ls" and lp=proof_ex] ls i1 nth
    by simp
  have b: "l2ToL1Log receipt_ex (id_lp (proof_ex\<lparr>id_lp := 9\<rparr>)) =
     Some \<lparr>sender = ''0x0000000000000000000000000000000000008008'', data_l2 = ''0x11''\<rparr>"
    using outbound_log_selection[where rc=receipt_ex and ls="?ls" and lp="proof_ex\<lparr>id_lp := 9\<rparr>"] ls
    by simp
  have q: "getLogProof env_ready (hash ?rc0) 0 (proofCalls ?w) = Returns (Some proof_ex)"
    by (simp add: env_ready_fields world0_def)
  have h: "hash ?rc0 = ''0xabc1''" by (simp add: receipt_ex_def)
  note t = outbound_log_selection[where rc="?rc0" and lp=proof_ex and e=env_ready and w="?w"
      and bs="''0xb0''"]
  have c: "l2ToL1Log ?rc0 (id_lp proof_ex) = None" using t by simp
  have d: "after_proof env_ready ?rc0 ''0xb0'' ?w =
     Some (Inl (Error ''Missing L2->L1 log in receipt; adjust log index selection.''),
           snd (call_getLogProof env_ready ''0xabc1'' 0 ?w))"
    using t q h by simp
  have q1: "getLogProof env_ready (hash receipt_ex) 0 (proofCalls ?w) = Returns (Some proof_ex)"
    by (simp add: env_ready_fields world0_def)
  have f: "after_proof env_ready receipt_ex ''0xb0'' ?w =
     bind_io (await (call_getNetwork env_ready)) (\<lambda>chainIdA.
       bind_io (await (call_getNetwork env_ready)) (\<lambda>chainIdA2.
       bind_io (total_io (waitUntilRootBecomesAvailable env_ready chainIdA2 7 root_ex)) (\<lambda>u.
       await (call_executeBundle env_ready ''0xb0''
           \<lparr>chainId_mp = chainIdA, l1BatchNumber = 7, l2MessageIndex = 1,
            message_mp = \<lparr>txNumberInBatch = 2,
                          sender_msg = ''0x0000000000000000000000000000000000010010'',
                          data_msg = ''0x22''\<rparr>,
            proof_mp = [''0x01'', ''0x02'']\<rparr>))))
     (snd (call_getLogProof env_ready ''0xabc1'' 0 ?w))"
    using outbound_log_selection[where rc=receipt_ex and lp=proof_ex and e=env_ready and w="?w"
      and bs="''0xb0''"
      and l="\<lparr>sender = ''0x0000000000000000000000000000000000010010'', data_l2 = ''0x22''\<rparr>"]
      q1 a
    by (simp add: proof_ex_def receipt_ex_def)
  from a b c d f show ?thesis by simp
qed

end
